theory Spec2Isabelle
  imports
    Complex_Main
    "HOL-Library.Multiset"
    "HOL-Library.Char_ord"
    "HOL-Library.List_Lexorder"
    "HOL-Library.Product_Lexorder"
begin

section \<open>Data model (models/base.py, models/route.py, models/population.py)\<close>

text \<open>
  Python floats are modelled as \<^typ>\<open>real\<close>, Python ints that the validators keep
  non-negative (\<open>ge=0\<close>) as \<^typ>\<open>nat\<close>, the other ints as \<^typ>\<open>int\<close>.
  Every exception the code can raise is a value of \<open>error\<close>; a function that can
  raise returns \<open>error + 'a\<close>.  Timestamps are left out of the records: no operation
  modelled here reads them.
\<close>

datatype error = ValidationError | IndexError | KeyError

record coordinates =
  latitude :: real
  longitude :: real

record bus_stop =
  stop_id :: string
  stop_name :: string
  stop_coordinates :: coordinates
  address :: string
  amenities :: "string list"
  daily_passenger_count :: nat
  is_accessible :: bool

record route =
  route_id :: string
  name :: string
  description :: string
  stops :: "bus_stop list"
  operator_id :: string
  is_active :: bool
  optimization_score :: real
  estimated_travel_time :: int

text \<open>The field constraints of \<open>Coordinates\<close>, \<open>BusStop\<close> and \<open>Route\<close>.\<close>

definition valid_coordinates :: "coordinates \<Rightarrow> bool" where
  "valid_coordinates c \<longleftrightarrow>
     - 90 \<le> latitude c \<and> latitude c \<le> 90 \<and> - 180 \<le> longitude c \<and> longitude c \<le> 180"

definition valid_bus_stop :: "bus_stop \<Rightarrow> bool" where
  "valid_bus_stop s \<longleftrightarrow>
     1 \<le> length (stop_name s) \<and> length (stop_name s) \<le> 200 \<and>
     valid_coordinates (stop_coordinates s) \<and>
     1 \<le> length (address s) \<and> length (address s) \<le> 500"

definition valid_route :: "route \<Rightarrow> bool" where
  "valid_route r \<longleftrightarrow>
     1 \<le> length (name r) \<and> length (name r) \<le> 200 \<and>
     length (description r) \<le> 1000 \<and>
     2 \<le> length (stops r) \<and> list_all valid_bus_stop (stops r) \<and>
     0 \<le> optimization_score r \<and> optimization_score r \<le> 100 \<and>
     1 \<le> estimated_travel_time r \<and> estimated_travel_time r \<le> 1440"

text \<open>
  The constructors \<open>BusStop(...)\<close> and \<open>Route(...)\<close>: pydantic runs the field
  constraints and \<open>Route.validate_minimum_stops\<close>, and raises when one fails.
\<close>

definition BusStop :: "bus_stop \<Rightarrow> error + bus_stop" where
  "BusStop s = (if valid_bus_stop s then Inr s else Inl ValidationError)"

definition Route :: "route \<Rightarrow> error + route" where
  "Route r = (if valid_route r then Inr r else Inl ValidationError)"

text \<open>
  \<open>DemographicData\<close>, \<open>DensityPoint\<close>, \<open>GeoBounds\<close> and
  \<open>PopulationDensityData\<close>.  The two dicts of a \<open>DemographicData\<close> are
  association lists.
\<close>

record demographic_data =
  age_groups :: "(string \<times> real) list"
  economic_indicators :: "(string \<times> real) list"

record density_point =
  point_coordinates :: coordinates
  population :: nat
  demographic :: demographic_data

record geo_bounds =
  north :: real
  south :: real
  east :: real
  west :: real

record population_density_data =
  region :: string
  bounds :: geo_bounds
  density_points :: "density_point list"
  data_source :: string

text \<open>
  Python's \<open>int(x)\<close> on a float (truncation towards zero), \<open>max(xs)\<close> and
  \<open>min(xs)\<close> on a list of floats (every call in the code is on a non-empty list)
  and \<open>sum(...)\<close>.
\<close>

definition py_int :: "real \<Rightarrow> int" where
  "py_int x = (if 0 \<le> x then \<lfloor>x\<rfloor> else \<lceil>x\<rceil>)"

definition py_max :: "real list \<Rightarrow> real" where
  "py_max xs = Max (set xs)"

definition py_min :: "real list \<Rightarrow> real" where
  "py_min xs = Min (set xs)"

subsection \<open>Great-circle distance (\<open>_haversine_distance\<close>, \<open>_calculate_distance\<close>)\<close>

definition radians :: "real \<Rightarrow> real" where
  "radians x = x * pi / 180"

definition haversine_distance :: "coordinates \<Rightarrow> coordinates \<Rightarrow> real" where
  "haversine_distance coord1 coord2 =
     (let lat1 = radians (latitude coord1); lon1 = radians (longitude coord1);
          lat2 = radians (latitude coord2); lon2 = radians (longitude coord2);
          dlat = lat2 - lat1;
          dlon = lon2 - lon1;
          a = (sin (dlat / 2))\<^sup>2 + cos lat1 * cos lat2 * (sin (dlon / 2))\<^sup>2;
          c = 2 * arcsin (sqrt a)
      in 6371 * c)"

section \<open>Path matrix (algorithms/path\_matrix.py)\<close>

datatype PathAlgorithm = HAVERSINE | MANHATTAN | EUCLIDEAN | WEIGHTED

record path_segment =
  origin_stop_id :: string
  destination_stop_id :: string
  distance_km :: real
  estimated_time_minutes :: int
  traffic_factor :: real
  difficulty_score :: real

text \<open>
  The two numpy arrays are lists of rows.  \<open>mat_at m i j\<close> is \<open>m[i, j]\<close> for the
  non-negative indices the code uses, raising \<open>IndexError\<close> out of range.
\<close>

record path_matrix =
  stop_ids :: "string list"
  distance_matrix :: "real list list"
  time_matrix :: "real list list"
  segments :: "path_segment list"
  algorithm_used :: PathAlgorithm

definition mat_at :: "real list list \<Rightarrow> nat \<Rightarrow> nat \<Rightarrow> error + real" where
  "mat_at m i j =
     (if i < length m \<and> j < length (m ! i) then Inr (m ! i ! j) else Inl IndexError)"

text \<open>
  \<open>xs.index(x)\<close>: the position of the first occurrence.  Every call in the code is
  guarded by \<open>x in xs\<close>, so the \<open>ValueError\<close> of a missing element is never raised.
\<close>

definition index :: "'a list \<Rightarrow> 'a \<Rightarrow> nat" where
  "index xs x = length (takeWhile (\<lambda>y. y \<noteq> x) xs)"

text \<open>
  \<open>float('inf')\<close> as a distance is \<open>None\<close>; \<open>inf_less\<close> is \<open><\<close> and \<open>inf_add\<close>
  is \<open>+\<close> on such values.
\<close>

fun inf_less :: "real option \<Rightarrow> real option \<Rightarrow> bool" where
  "inf_less (Some x) (Some y) = (x < y)"
| "inf_less (Some x) None = True"
| "inf_less None b = False"

fun inf_add :: "real option \<Rightarrow> real \<Rightarrow> real option" where
  "inf_add (Some x) y = Some (x + y)"
| "inf_add None y = None"

subsection \<open>Stop sequencing (\<open>find_optimal_route_order\<close>)\<close>

text \<open>
  \<open>itertools.permutations(xs)\<close>: all orderings of the positions of \<open>xs\<close>, in
  lexicographic order of the positions.
\<close>

primrec perms_of_length :: "nat \<Rightarrow> 'a list \<Rightarrow> 'a list list" where
  "perms_of_length 0 xs = [[]]"
| "perms_of_length (Suc n) xs =
     concat (map (\<lambda>i. map ((#) (xs ! i)) (perms_of_length n (take i xs @ drop (Suc i) xs)))
               [0..<length xs])"

definition permutations :: "'a list \<Rightarrow> 'a list list" where
  "permutations xs = perms_of_length (length xs) xs"

text \<open>
  The list comprehension that both sequencers start with: the matrix index of every
  requested id that the matrix knows.
\<close>

definition route_indices :: "path_matrix \<Rightarrow> string list \<Rightarrow> nat list" where
  "route_indices matrix ids =
     map (index (stop_ids matrix)) (filter (\<lambda>s. s \<in> set (stop_ids matrix)) ids)"

text \<open>The inner loop of \<open>_brute_force_tsp\<close>: the sum of the consecutive entries.\<close>

fun total_distance :: "real list list \<Rightarrow> nat list \<Rightarrow> error + real" where
  "total_distance m (i # j # rest) =
     (case mat_at m i j of
        Inl e \<Rightarrow> Inl e
      | Inr d \<Rightarrow> (case total_distance m (j # rest) of
                    Inl e \<Rightarrow> Inl e
                  | Inr t \<Rightarrow> Inr (d + t)))"
| "total_distance m order = Inr 0"

text \<open>The loop over the permutations, with the state \<open>(best_distance, best_order)\<close>.\<close>

fun tsp_loop ::
  "real list list \<Rightarrow> nat \<Rightarrow> nat list list \<Rightarrow> real option \<times> nat list
     \<Rightarrow> error + real option \<times> nat list" where
  "tsp_loop m first_stop [] best = Inr best"
| "tsp_loop m first_stop (perm # perms) (best_distance, best_order) =
     (let order = first_stop # perm in
      case total_distance m order of
        Inl e \<Rightarrow> Inl e
      | Inr total_dist \<Rightarrow>
          if inf_less (Some total_dist) best_distance
          then tsp_loop m first_stop perms (Some total_dist, order)
          else tsp_loop m first_stop perms (best_distance, best_order))"

definition brute_force_tsp :: "path_matrix \<Rightarrow> string list \<Rightarrow> error + string list" where
  "brute_force_tsp matrix ids =
     (if ids = [] then Inr []
      else
        let indices = route_indices matrix ids in
        if length indices \<noteq> length ids then Inr ids
        else
          (case indices of
             [] \<Rightarrow> Inl IndexError
           | first_stop # remaining_stops \<Rightarrow>
               (case tsp_loop (distance_matrix matrix) first_stop
                       (permutations remaining_stops) (None, indices) of
                  Inl e \<Rightarrow> Inl e
                | Inr (best_distance, best_order) \<Rightarrow>
                    Inr (map (\<lambda>idx. stop_ids matrix ! idx) best_order))))"

text \<open>
  \<open>min(unvisited, key=...)\<close>: the first element with the least key, the keys being
  read in iteration order.  \<open>unvisited\<close> is a Python set of matrix indices; it is
  modelled as the list of its elements in ascending order, so that among equally
  near stops the one with the least index is taken.
\<close>

fun min_by_distance :: "real list list \<Rightarrow> nat \<Rightarrow> nat list \<Rightarrow> error + nat" where
  "min_by_distance m current [] = Inl IndexError"
| "min_by_distance m current [x] =
     (case mat_at m current x of Inl e \<Rightarrow> Inl e | Inr d \<Rightarrow> Inr x)"
| "min_by_distance m current (x # y # ys) =
     (case mat_at m current x of
        Inl e \<Rightarrow> Inl e
      | Inr d \<Rightarrow>
          (case min_by_distance m current (y # ys) of
             Inl e \<Rightarrow> Inl e
           | Inr z \<Rightarrow>
               (case mat_at m current z of
                  Inl e \<Rightarrow> Inl e
                | Inr dz \<Rightarrow> if dz < d then Inr z else Inr x)))"

function nn_loop :: "real list list \<Rightarrow> nat \<Rightarrow> nat list \<Rightarrow> nat list \<Rightarrow> error + nat list" where
  "nn_loop m current unvisited route' =
     (if unvisited = [] then Inr route'
      else
        (case min_by_distance m current unvisited of
           Inl e \<Rightarrow> Inl e
         | Inr nearest \<Rightarrow>
             nn_loop m nearest (removeAll nearest unvisited) (route' @ [nearest])))"
  by pat_completeness auto
termination
proof (relation "measure (\<lambda>(m, current, unvisited, route'). length unvisited)")
  show "wf (measure (\<lambda>(m, current, unvisited, route'). length unvisited))" by simp
next
  fix m :: "real list list" and current nearest :: nat and unvisited route' :: "nat list"
  assume found: "min_by_distance m current unvisited = Inr nearest"
  have "min_by_distance m current xs = Inr z \<Longrightarrow> z \<in> set xs" for xs z
    by (induction m current xs arbitrary: z rule: min_by_distance.induct)
       (auto split: sum.splits if_splits)
  from this [OF found] have "nearest \<in> set unvisited" .
  then have "length (removeAll nearest unvisited) < length unvisited"
    by (simp add: length_removeAll_less)
  then show "((m, nearest, removeAll nearest unvisited, route' @ [nearest]),
              (m, current, unvisited, route'))
             \<in> measure (\<lambda>(m, current, unvisited, route'). length unvisited)"
    by simp
qed

declare nn_loop.simps [simp del]

definition nearest_neighbor_tsp :: "path_matrix \<Rightarrow> string list \<Rightarrow> error + string list" where
  "nearest_neighbor_tsp matrix ids =
     (if ids = [] then Inr []
      else
        let indices = route_indices matrix ids in
        if length indices \<noteq> length ids then Inr ids
        else
          (case indices of
             [] \<Rightarrow> Inl IndexError
           | current # rest \<Rightarrow>
               (case nn_loop (distance_matrix matrix) current
                       (sort (remdups rest)) [current] of
                  Inl e \<Rightarrow> Inl e
                | Inr route' \<Rightarrow> Inr (map (\<lambda>idx. stop_ids matrix ! idx) route'))))"

text \<open>
  \<open>find_optimal_route_order\<close> itself: whatever is raised inside is caught, and the
  input order is returned.
\<close>

definition find_optimal_route_order :: "path_matrix \<Rightarrow> string list \<Rightarrow> string list" where
  "find_optimal_route_order matrix ids =
     (if length ids \<le> 2 then ids
      else if length ids \<le> 8 then
        (case brute_force_tsp matrix ids of Inl e \<Rightarrow> ids | Inr order \<Rightarrow> order)
      else
        (case nearest_neighbor_tsp matrix ids of Inl e \<Rightarrow> ids | Inr order \<Rightarrow> order))"

subsection \<open>Shortest path (\<open>find_shortest_path\<close>)\<close>

text \<open>
  The three work lists of the Dijkstra loop.  An entry of \<open>dist\<close> is \<open>None\<close>
  while it is \<open>float('inf')\<close>; an entry of \<open>parent\<close> is \<open>None\<close> while it is \<open>-1\<close>.
\<close>

record dijkstra_state =
  visited :: "bool list"
  dist :: "real option list"
  parent :: "nat option list"

text \<open>The first inner loop: the unvisited vertex of least distance, the first such.\<close>

fun find_min_vertex ::
  "bool list \<Rightarrow> real option list \<Rightarrow> nat list \<Rightarrow> real option \<times> nat option
     \<Rightarrow> real option \<times> nat option" where
  "find_min_vertex vis ds [] acc = acc"
| "find_min_vertex vis ds (v # vs) (min_dist, min_idx) =
     (if \<not> vis ! v \<and> inf_less (ds ! v) min_dist
      then find_min_vertex vis ds vs (ds ! v, Some v)
      else find_min_vertex vis ds vs (min_dist, min_idx))"

text \<open>
  The second inner loop: the distances of the unvisited neighbours.  The three
  conditions are read left to right, so the matrix is read only for an unvisited
  vertex.
\<close>

fun update_neighbors ::
  "real list list \<Rightarrow> nat \<Rightarrow> nat list \<Rightarrow> dijkstra_state \<Rightarrow> error + dijkstra_state" where
  "update_neighbors distances min_idx [] st = Inr st"
| "update_neighbors distances min_idx (v # vs) st =
     (if visited st ! v then update_neighbors distances min_idx vs st
      else
        (case mat_at distances min_idx v of
           Inl e \<Rightarrow> Inl e
         | Inr w \<Rightarrow>
             if 0 < w \<and> inf_less (inf_add (dist st ! min_idx) w) (dist st ! v)
             then update_neighbors distances min_idx vs
                    (st\<lparr>dist := (dist st)[v := inf_add (dist st ! min_idx) w],
                        parent := (parent st)[v := Some min_idx]\<rparr>)
             else update_neighbors distances min_idx vs st))"

text \<open>\<open>for _ in range(n_stops)\<close>, with its \<open>break\<close> when no vertex is left.\<close>

fun dijkstra_loop ::
  "nat \<Rightarrow> real list list \<Rightarrow> nat \<Rightarrow> dijkstra_state \<Rightarrow> error + dijkstra_state" where
  "dijkstra_loop 0 distances n_stops st = Inr st"
| "dijkstra_loop (Suc k) distances n_stops st =
     (case snd (find_min_vertex (visited st) (dist st) [0..<n_stops] (None, None)) of
        None \<Rightarrow> Inr st
      | Some min_idx \<Rightarrow>
          (case update_neighbors distances min_idx [0..<n_stops]
                  (st\<lparr>visited := (visited st)[min_idx := True]\<rparr>) of
             Inl e \<Rightarrow> Inl e
           | Inr st' \<Rightarrow> dijkstra_loop k distances n_stops st'))"

definition run_dijkstra :: "path_matrix \<Rightarrow> nat \<Rightarrow> error + dijkstra_state" where
  "run_dijkstra matrix origin_idx =
     (let n_stops = length (stop_ids matrix)
      in dijkstra_loop n_stops (distance_matrix matrix) n_stops
           \<lparr>visited = replicate n_stops False,
            dist = (replicate n_stops None)[origin_idx := Some 0],
            parent = replicate n_stops None\<rparr>)"

text \<open>
  \<open>while current != -1\<close>: the walk back along \<open>parent\<close>.  Nothing in the loop
  itself bounds it, so it is a partial function: \<open>None\<close> is a walk that never ends.
\<close>

partial_function (option) reconstruct_path ::
  "string list \<Rightarrow> nat option list \<Rightarrow> nat option \<Rightarrow> string list \<Rightarrow> string list option" where
  "reconstruct_path ids par current path =
     (case current of
        None \<Rightarrow> Some path
      | Some c \<Rightarrow> reconstruct_path ids par (par ! c) (path @ [ids ! c]))"

declare reconstruct_path.simps [code]

text \<open>
  \<open>find_shortest_path\<close>.  The result \<open>Some None\<close> is the Python \<open>None\<close> (no path),
  \<open>Some (Some path)\<close> a path, and \<open>None\<close> a call that does not return.  Whatever
  is raised inside is caught, and \<open>None\<close> is returned.
\<close>

definition find_shortest_path :: "path_matrix \<Rightarrow> string \<Rightarrow> string \<Rightarrow> string list option option" where
  "find_shortest_path matrix origin_id destination_id =
     (if origin_id \<notin> set (stop_ids matrix) \<or> destination_id \<notin> set (stop_ids matrix)
      then Some None
      else
        let origin_idx = index (stop_ids matrix) origin_id;
            destination_idx = index (stop_ids matrix) destination_id
        in (case run_dijkstra matrix origin_idx of
              Inl e \<Rightarrow> Some None
            | Inr st \<Rightarrow>
                if dist st ! destination_idx = None then Some None
                else map_option (\<lambda>path. Some (rev path))
                       (reconstruct_path (stop_ids matrix) (parent st)
                          (Some destination_idx) [])))"

text \<open>
  ``The destination is unreachable'': the Dijkstra loop ends with the distance of the
  destination still infinite.
\<close>

definition distance_remains_infinite :: "path_matrix \<Rightarrow> string \<Rightarrow> string \<Rightarrow> bool" where
  "distance_remains_infinite matrix origin_id destination_id \<longleftrightarrow>
     (case run_dijkstra matrix (index (stop_ids matrix) origin_id) of
        Inl e \<Rightarrow> False
      | Inr st \<Rightarrow> dist st ! index (stop_ids matrix) destination_id = None)"

text \<open>
  What the claims about the sequencer speak of: a matrix whose distance array is
  square with one row and one column per stop id, and the sum of the consecutive
  distance entries along a sequence of stop ids.
\<close>

definition square_matrix :: "path_matrix \<Rightarrow> bool" where
  "square_matrix matrix \<longleftrightarrow>
     length (distance_matrix matrix) = length (stop_ids matrix) \<and>
     list_all (\<lambda>row. length row = length (stop_ids matrix)) (distance_matrix matrix)"

definition sequence_distance :: "path_matrix \<Rightarrow> string list \<Rightarrow> error + real" where
  "sequence_distance matrix ids =
     total_distance (distance_matrix matrix) (map (index (stop_ids matrix)) ids)"

section \<open>Route analysis (algorithms/route\_analyzer.py)\<close>

text \<open>
  A bottleneck is a dict with the keys \<open>type\<close> and \<open>severity\<close> and, by type, the
  index of the stop it is about; its other entries (names, rounded distances, the
  description) are texts for the reader and are left out.
\<close>

record bottleneck =
  btype :: string
  severity :: string
  stop_index :: "nat option"

record route_analysis_result =
  analysed_route_id :: string
  efficiency_score :: real
  coverage_score :: real
  accessibility_score :: real
  travel_time_estimate :: int
  passenger_demand_score :: real
  bottlenecks :: "bottleneck list"
  recommendations :: "string list"

definition route_analysis_get_overall_score :: "route_analysis_result \<Rightarrow> real" where
  "route_analysis_get_overall_score res =
     efficiency_score res * 0.25 + coverage_score res * 0.25
       + accessibility_score res * 0.20 + passenger_demand_score res * 0.30"

text \<open>
  The learned estimator of the analyzer is a parameter: \<open>None\<close> when the models could
  not be set up (\<open>self.efficiency_model is None\<close>), otherwise the prediction as a
  function of the ten features, itself \<open>None\<close> where predicting raises.
\<close>

type_synonym efficiency_model = "(real list \<Rightarrow> real option) option"

text \<open>The sum of the great-circle distances between consecutive stops.\<close>

fun consecutive_distance :: "bus_stop list \<Rightarrow> real" where
  "consecutive_distance (s # t # rest) =
     haversine_distance (stop_coordinates s) (stop_coordinates t)
       + consecutive_distance (t # rest)"
| "consecutive_distance stops' = 0"

definition extract_efficiency_features :: "route \<Rightarrow> real list" where
  "extract_efficiency_features r =
     (let n = length (stops r);
          f0 = [real n];
          f1 = [if n > 1 then consecutive_distance (stops r) / real (n - 1) else 0];
          f2 = [if n > 0 then real_of_int (estimated_travel_time r) / real n else 0];
          accessible_stops = length (filter is_accessible (stops r));
          f3 = [if stops r \<noteq> [] then real accessible_stops / real n else 0];
          avg_passengers =
            (if stops r \<noteq> [] then real (sum_list (map daily_passenger_count (stops r))) / real n
             else 0);
          f4 = [avg_passengers / 1000];
          f5 = [if is_active r then 1 else 0];
          f6 = [optimization_score r / 100];
          lats = map (\<lambda>s. latitude (stop_coordinates s)) (stops r);
          lons = map (\<lambda>s. longitude (stop_coordinates s)) (stops r);
          f78 = (if n > 1 then [py_max lats - py_min lats, py_max lons - py_min lons]
                 else [0, 0]);
          features = f0 @ f1 @ f2 @ f3 @ f4 @ f5 @ f6 @ f78
      in take 10 (features @ replicate (10 - length features) 0))"

definition rule_based_efficiency_score :: "real list \<Rightarrow> real" where
  "rule_based_efficiency_score features =
     (let score0 = (50 :: real);
          stop_count = features ! 0;
          score1 = (if 8 \<le> stop_count \<and> stop_count \<le> 12 then score0 + 15
                    else if 5 \<le> stop_count \<and> stop_count \<le> 15 then score0 + 10
                    else score0 - 10);
          avg_distance = features ! 1;
          score2 = (if 0.5 \<le> avg_distance \<and> avg_distance \<le> 2.0 then score1 + 10
                    else if avg_distance > 5.0 then score1 - 15
                    else score1);
          time_per_stop = features ! 2;
          score3 = (if time_per_stop \<le> 5 then score2 + 10
                    else if time_per_stop > 10 then score2 - 10
                    else score2);
          accessibility_ratio = features ! 3;
          score4 = score3 + accessibility_ratio * 15
      in max 0 (min 100 score4))"

definition calculate_efficiency_score :: "efficiency_model \<Rightarrow> route \<Rightarrow> real" where
  "calculate_efficiency_score model r =
     (let features = extract_efficiency_features r in
      case model of
        Some predict \<Rightarrow>
          (case predict features of
             None \<Rightarrow> 50
           | Some prediction \<Rightarrow> max 0 (min 100 (prediction * 100)))
      | None \<Rightarrow> max 0 (min 100 (rule_based_efficiency_score features)))"

definition basic_coverage_score :: "route \<Rightarrow> real" where
  "basic_coverage_score r =
     (if stops r = [] then 0
      else
        let lats = map (\<lambda>s. latitude (stop_coordinates s)) (stops r);
            lons = map (\<lambda>s. longitude (stop_coordinates s)) (stops r);
            lat_range = py_max lats - py_min lats;
            lon_range = py_max lons - py_min lons;
            coverage = min 100 ((lat_range + lon_range) * 1000)
        in max 10 coverage)"

text \<open>
  The loop over the density points, with its inner loop over the stops that
  \<open>break\<close>s at the first stop within the radius.
\<close>

definition covered_population :: "route \<Rightarrow> density_point list \<Rightarrow> nat" where
  "covered_population r points =
     sum_list
       (map (\<lambda>density_point.
               if list_ex (\<lambda>stop. haversine_distance (stop_coordinates stop)
                                    (point_coordinates density_point) \<le> 0.01) (stops r)
               then population density_point else 0)
          points)"

definition calculate_coverage_score :: "route \<Rightarrow> population_density_data option \<Rightarrow> real" where
  "calculate_coverage_score r population_data =
     (case population_data of
        None \<Rightarrow> basic_coverage_score r
      | Some pd \<Rightarrow>
          if density_points pd = [] then basic_coverage_score r
          else
            let total_population = sum_list (map population (density_points pd)) in
            if total_population = 0 then 50
            else
              let coverage_ratio =
                    real (covered_population r (density_points pd)) / real total_population
              in min 100 (coverage_ratio * 100))"

definition calculate_accessibility_score :: "route \<Rightarrow> real" where
  "calculate_accessibility_score r =
     (if stops r = [] then 0
      else
        let accessible_count = length (filter is_accessible (stops r));
            accessibility_ratio = real accessible_count / real (length (stops r));
            amenity_bonus = sum_list (map (\<lambda>stop. length (amenities stop)) (stops r));
            amenity_score = min 20 (real amenity_bonus / real (length (stops r)))
        in accessibility_ratio * 80 + amenity_score)"

definition estimate_travel_time :: "route \<Rightarrow> int" where
  "estimate_travel_time r =
     (if length (stops r) < 2 then estimated_travel_time r
      else
        let total = consecutive_distance (stops r);
            travel_time_hours = total / 25;
            travel_time_minutes = py_int (travel_time_hours * 60);
            stop_time = int (length (stops r)) * 2;
            estimated_time = travel_time_minutes + stop_time
        in max estimated_time (estimated_travel_time r))"

definition calculate_density_bonus :: "route \<Rightarrow> population_density_data \<Rightarrow> real" where
  "calculate_density_bonus r pd =
     (let bonus =
            sum_list
              (map (\<lambda>stop.
                      let nearby_population =
                            sum_list
                              (map population
                                 (filter (\<lambda>density_point.
                                            haversine_distance (stop_coordinates stop)
                                              (point_coordinates density_point) \<le> 0.01)
                                    (density_points pd)))
                      in min 10 (real nearby_population / 1000))
                 (stops r))
      in min 20 (bonus / real (length (stops r))))"

definition calculate_passenger_demand_score ::
  "route \<Rightarrow> population_density_data option \<Rightarrow> real" where
  "calculate_passenger_demand_score r population_data =
     (if stops r = [] then 0
      else
        let total_passengers = sum_list (map daily_passenger_count (stops r));
            avg_passengers = real total_passengers / real (length (stops r));
            base_score = min 100 (avg_passengers / 1000 * 100)
        in (case population_data of
              None \<Rightarrow> base_score
            | Some pd \<Rightarrow>
                if density_points pd = [] then base_score
                else min 100 (base_score + calculate_density_bonus r pd)))"

text \<open>The three checks of \<open>_identify_bottlenecks\<close>, in the order of the code.\<close>

definition high_demand_bottlenecks :: "route \<Rightarrow> bottleneck list" where
  "high_demand_bottlenecks r =
     (let avg_passengers =
            real (sum_list (map daily_passenger_count (stops r))) / real (length (stops r));
          high_threshold = avg_passengers * 2
      in map (\<lambda>(i, stop).
                \<lparr>btype = ''high_demand_stop'',
                 severity = (if real (daily_passenger_count stop) > avg_passengers * 3
                             then ''high'' else ''medium''),
                 stop_index = Some i\<rparr>)
           (filter (\<lambda>(i, stop). real (daily_passenger_count stop) > high_threshold)
              (enumerate 0 (stops r))))"

definition large_gap_bottlenecks :: "route \<Rightarrow> bottleneck list" where
  "large_gap_bottlenecks r =
     concat
       (map (\<lambda>i.
               let distance = haversine_distance (stop_coordinates (stops r ! i))
                                (stop_coordinates (stops r ! (i + 1)))
               in if distance > 5 then
                    [\<lparr>btype = ''large_gap'',
                      severity = (if distance > 10 then ''high'' else ''medium''),
                      stop_index = Some i\<rparr>]
                  else [])
          [0..<length (stops r) - 1])"

definition accessibility_bottlenecks :: "route \<Rightarrow> bottleneck list" where
  "accessibility_bottlenecks r =
     (let inaccessible_stops = filter (\<lambda>(i, stop). \<not> is_accessible stop) (enumerate 0 (stops r))
      in if real (length inaccessible_stops) > real (length (stops r)) * 0.5 then
           [\<lparr>btype = ''accessibility_issue'', severity = ''medium'', stop_index = None\<rparr>]
         else [])"

definition identify_bottlenecks :: "route \<Rightarrow> bottleneck list" where
  "identify_bottlenecks r =
     (if length (stops r) < 2 then []
      else high_demand_bottlenecks r @ large_gap_bottlenecks r @ accessibility_bottlenecks r)"

definition generate_recommendations :: "route \<Rightarrow> real \<Rightarrow> real \<Rightarrow> real \<Rightarrow> string list" where
  "generate_recommendations r efficiency coverage accessibility =
     (let r1 = (if efficiency < 60 then
                  (if length (stops r) > 15 then
                     [''Consider reducing the number of stops to improve efficiency'']
                   else if length (stops r) < 5 then
                     [''Consider adding more stops to better serve the area'']
                   else [])
                  @ [''Review stop spacing and timing to optimize travel efficiency'']
                else []);
          r2 = (if coverage < 50 then
                  [''Consider adjusting route path to cover higher population density areas'',
                   ''Analyze population data to identify underserved areas'']
                else []);
          r3 = (if accessibility < 70 then
                  [''Improve wheelchair accessibility at more stops'',
                   ''Add amenities like shelters and seating at stops'']
                else []);
          r4 = (if estimated_travel_time r > 120 then
                  [''Consider splitting this route into shorter segments'']
                else []);
          r5 = (if \<not> is_active r then
                  [''Evaluate reactivating this route based on analysis results'']
                else []);
          recs = r1 @ r2 @ r3 @ r4 @ r5
      in if recs = [] then
           [''Route performance is good - consider minor optimizations for continuous improvement'']
         else recs)"

definition analyze_route ::
  "efficiency_model \<Rightarrow> route \<Rightarrow> population_density_data option \<Rightarrow> route_analysis_result" where
  "analyze_route model r population_data =
     (let efficiency = calculate_efficiency_score model r;
          coverage = calculate_coverage_score r population_data;
          accessibility = calculate_accessibility_score r
      in \<lparr>analysed_route_id = route_id r,
          efficiency_score = efficiency,
          coverage_score = coverage,
          accessibility_score = accessibility,
          travel_time_estimate = estimate_travel_time r,
          passenger_demand_score = calculate_passenger_demand_score r population_data,
          bottlenecks = identify_bottlenecks r,
          recommendations = generate_recommendations r efficiency coverage accessibility\<rparr>)"

section \<open>Population analysis (algorithms/population\_analyzer.py)\<close>

text \<open>
  Of a \<open>PopulationAnalysisResult\<close> the record keeps the region, the total
  population, the candidate stop locations and the coverage gaps; the density
  figure, the high-density areas and the demographic summary are computed from the
  same data by code that cannot raise, and no operation modelled here reads them.  A
  coverage gap is a dict; its \<open>demographic_profile\<close> entry is left out likewise.
  \<open>distance_to_nearest_stop\<close> is \<open>None\<close> while it is \<open>float('inf')\<close>.
\<close>

record coverage_gap =
  gap_coordinates :: coordinates
  gap_population :: nat
  distance_to_nearest_stop :: "real option"
  gap_severity :: string

record population_analysis_result =
  analysed_region :: string
  total_population :: nat
  optimal_stop_locations :: "coordinates list"
  coverage_gaps :: "coverage_gap list"

text \<open>A density point as the tuple \<open>(latitude, longitude, population)\<close>.\<close>

type_synonym point_tuple = "real \<times> real \<times> nat"

definition tuple_coordinates :: "point_tuple \<Rightarrow> coordinates" where
  "tuple_coordinates p = \<lparr>latitude = fst p, longitude = fst (snd p)\<rparr>"

definition calculate_stop_score :: "point_tuple \<Rightarrow> point_tuple list \<Rightarrow> real" where
  "calculate_stop_score point all_points =
     (let coords = tuple_coordinates point
      in real (snd (snd point))
         + sum_list
             (map (\<lambda>other.
                     if (fst other, fst (snd other)) \<noteq> (fst point, fst (snd point)) then
                       let distance = haversine_distance coords (tuple_coordinates other)
                       in if distance \<le> 1 then real (snd (snd other)) * max 0 (1 - distance)
                          else 0
                     else 0)
                all_points))"

text \<open>\<open>max(xs, key=f)\<close>: the first element with the greatest key.\<close>

fun max_by_key :: "('a \<Rightarrow> real) \<Rightarrow> 'a \<Rightarrow> 'a list \<Rightarrow> 'a" where
  "max_by_key f best [] = best"
| "max_by_key f best (x # xs) =
     (if f x > f best then max_by_key f x xs else max_by_key f best xs)"

text \<open>
  The greedy loop of \<open>_find_optimal_stop_locations\<close>, \<open>for _ in range(...)\<close> with
  its \<open>break\<close> when no point remains.
\<close>

fun cluster_loop :: "nat \<Rightarrow> point_tuple list \<Rightarrow> coordinates list \<Rightarrow> coordinates list" where
  "cluster_loop 0 remaining_points optimal_locations = optimal_locations"
| "cluster_loop (Suc k) [] optimal_locations = optimal_locations"
| "cluster_loop (Suc k) (p # ps) optimal_locations =
     (let best_point = max_by_key (\<lambda>q. calculate_stop_score q (p # ps)) p ps;
          remaining_points =
            filter (\<lambda>q. haversine_distance (tuple_coordinates q) (tuple_coordinates best_point)
                         > 0.5)
              (p # ps)
      in cluster_loop k remaining_points (optimal_locations @ [tuple_coordinates best_point]))"

definition find_optimal_stop_locations ::
  "population_density_data \<Rightarrow> nat \<Rightarrow> coordinates list" where
  "find_optimal_stop_locations pd max_stops =
     (if density_points pd = [] then []
      else
        let points =
              map (\<lambda>point. (latitude (point_coordinates point),
                             longitude (point_coordinates point), population point))
                (density_points pd)
        in if length points \<le> max_stops then
             map tuple_coordinates (filter (\<lambda>p. snd (snd p) > 0) points)
           else cluster_loop (min max_stops (length points)) points [])"

text \<open>
  The inner loop of \<open>_identify_coverage_gaps\<close> over the stops, which stops at the
  first stop within the radius: whether the point is covered, and the least distance
  seen.
\<close>

fun scan_stops :: "coordinates \<Rightarrow> coordinates list \<Rightarrow> real \<Rightarrow> real option \<Rightarrow> bool \<times> real option" where
  "scan_stops point_coords [] coverage_radius min_distance = (False, min_distance)"
| "scan_stops point_coords (stop # rest) coverage_radius min_distance =
     (let distance = haversine_distance point_coords stop;
          min_distance' = (case min_distance of
                             None \<Rightarrow> Some distance
                           | Some m \<Rightarrow> Some (min m distance))
      in if distance \<le> coverage_radius then (True, min_distance')
         else scan_stops point_coords rest coverage_radius min_distance')"

definition identify_coverage_gaps ::
  "population_density_data \<Rightarrow> coordinates list \<Rightarrow> real \<Rightarrow> coverage_gap list" where
  "identify_coverage_gaps pd optimal_stops coverage_radius =
     (if density_points pd = [] \<or> optimal_stops = [] then []
      else
        let gaps =
              concat
                (map (\<lambda>point.
                        let (is_covered, min_distance) =
                              scan_stops (point_coordinates point) optimal_stops
                                coverage_radius None
                        in if \<not> is_covered \<and> population point > 500 then
                             [\<lparr>gap_coordinates =
                                 \<lparr>latitude = latitude (point_coordinates point),
                                  longitude = longitude (point_coordinates point)\<rparr>,
                               gap_population = population point,
                               distance_to_nearest_stop = min_distance,
                               gap_severity =
                                 (if population point > 2000 then ''high'' else ''medium'')\<rparr>]
                           else [])
                   (density_points pd))
        in sort_key (\<lambda>gap. - int (gap_population gap)) gaps)"

definition analyze_population_data :: "population_density_data \<Rightarrow> population_analysis_result" where
  "analyze_population_data pd =
     (let optimal_stops = find_optimal_stop_locations pd 20
      in \<lparr>analysed_region = region pd,
          total_population = sum_list (map population (density_points pd)),
          optimal_stop_locations = optimal_stops,
          coverage_gaps = identify_coverage_gaps pd optimal_stops 1\<rparr>)"

section \<open>Bottleneck removal (optimization\_engine.py, \<open>_remove_bottleneck_stops\<close>)\<close>

text \<open>
  The loop over the bottlenecks: each of the three branches is \<open>continue\<close>, a
  bottleneck that matches none of them falls through, and \<open>stops_to_remove\<close> is
  never appended to.
\<close>

fun collect_stops_to_remove :: "bottleneck list \<Rightarrow> nat list \<Rightarrow> nat list" where
  "collect_stops_to_remove [] stops_to_remove = stops_to_remove"
| "collect_stops_to_remove (b # bs) stops_to_remove =
     (if btype b = ''large_gap'' \<and> severity b = ''high''
        then collect_stops_to_remove bs stops_to_remove
      else if btype b = ''high_demand_stop'' \<and> severity b = ''high''
        then collect_stops_to_remove bs stops_to_remove
      else if btype b = ''accessibility_issue''
        then collect_stops_to_remove bs stops_to_remove
      else collect_stops_to_remove bs stops_to_remove)"

definition remove_bottleneck_stops :: "bus_stop list \<Rightarrow> bottleneck list \<Rightarrow> bus_stop list" where
  "remove_bottleneck_stops stops' bns =
     (if length stops' \<le> 3 then stops'
      else
        let stops_to_remove = collect_stops_to_remove bns []
        in map snd
             (filter (\<lambda>(i, stop). i \<notin> set stops_to_remove
                        \<or> int (length stops') - int (length stops_to_remove) < 2)
                (enumerate 0 stops')))"

section \<open>Optimization results (models/optimization.py)\<close>

record optimization_metrics =
  time_improvement :: real
  distance_reduction :: real
  passenger_coverage_increase :: real
  cost_savings :: real

definition valid_metrics :: "optimization_metrics \<Rightarrow> bool" where
  "valid_metrics m \<longleftrightarrow>
     0 \<le> time_improvement m \<and> 0 \<le> distance_reduction m \<and>
     0 \<le> passenger_coverage_increase m \<and> 0 \<le> cost_savings m"

definition OptimizationMetrics :: "optimization_metrics \<Rightarrow> error + optimization_metrics" where
  "OptimizationMetrics m = (if valid_metrics m then Inr m else Inl ValidationError)"

definition metrics_get_overall_score :: "optimization_metrics \<Rightarrow> real" where
  "metrics_get_overall_score m =
     (let score = time_improvement m * 0.3 + distance_reduction m * 0.2
                    + passenger_coverage_increase m * 0.3 + min (cost_savings m) 100 * 0.2
      in min score 100)"

record optimization_result =
  result_id :: string
  original_route_id :: string
  optimized_route :: route
  metrics :: optimization_metrics
  population_data :: population_density_data

definition is_improvement :: "optimization_result \<Rightarrow> real \<Rightarrow> bool" where
  "is_improvement res threshold \<longleftrightarrow> metrics_get_overall_score (metrics res) \<ge> threshold"

section \<open>Building the path matrix (path\_matrix.py, \<open>calculate_path_matrix\<close>)\<close>

definition manhattan_distance :: "coordinates \<Rightarrow> coordinates \<Rightarrow> real" where
  "manhattan_distance coord1 coord2 =
     (let lat_diff = \<bar>latitude coord2 - latitude coord1\<bar> * 111;
          avg_lat = (latitude coord1 + latitude coord2) / 2;
          lon_diff = \<bar>longitude coord2 - longitude coord1\<bar> * 111 * cos (radians avg_lat)
      in lat_diff + lon_diff)"

definition euclidean_distance :: "coordinates \<Rightarrow> coordinates \<Rightarrow> real" where
  "euclidean_distance coord1 coord2 =
     (let lat_diff = (latitude coord2 - latitude coord1) * 111;
          avg_lat = (latitude coord1 + latitude coord2) / 2;
          lon_diff = (longitude coord2 - longitude coord1) * 111 * cos (radians avg_lat)
      in sqrt (lat_diff\<^sup>2 + lon_diff\<^sup>2))"

definition weighted_distance :: "bus_stop \<Rightarrow> bus_stop \<Rightarrow> real" where
  "weighted_distance stop1 stop2 =
     (let base_distance = haversine_distance (stop_coordinates stop1) (stop_coordinates stop2);
          w0 = (1 :: real);
          w1 = (if is_accessible stop1 \<and> is_accessible stop2 then w0 * 0.95
                else if \<not> is_accessible stop1 \<or> \<not> is_accessible stop2 then w0 * 1.1
                else w0);
          avg_passengers =
            (real (daily_passenger_count stop1) + real (daily_passenger_count stop2)) / 2;
          w2 = (if avg_passengers > 5000 then w1 * 0.9
                else if avg_passengers < 1000 then w1 * 1.15
                else w1);
          total_amenities = length (amenities stop1) + length (amenities stop2);
          w3 = (if total_amenities > 4 then w2 * 0.95 else w2)
      in base_distance * w3)"

fun calculate_distance :: "bus_stop \<Rightarrow> bus_stop \<Rightarrow> PathAlgorithm \<Rightarrow> real" where
  "calculate_distance stop1 stop2 HAVERSINE =
     haversine_distance (stop_coordinates stop1) (stop_coordinates stop2)"
| "calculate_distance stop1 stop2 MANHATTAN =
     manhattan_distance (stop_coordinates stop1) (stop_coordinates stop2)"
| "calculate_distance stop1 stop2 EUCLIDEAN =
     euclidean_distance (stop_coordinates stop1) (stop_coordinates stop2)"
| "calculate_distance stop1 stop2 WEIGHTED = weighted_distance stop1 stop2"

text \<open>
  \<open>PathMatrixCalculator._estimate_travel_time\<close>, the time of one segment (the
  analyzer has a method of the same name for a whole route).
\<close>

definition estimate_segment_travel_time :: "bus_stop \<Rightarrow> bus_stop \<Rightarrow> real \<Rightarrow> real" where
  "estimate_segment_travel_time stop1 stop2 distance =
     (let base_speed = (25 :: real);
          avg_passengers =
            (real (daily_passenger_count stop1) + real (daily_passenger_count stop2)) / 2;
          speed = (if avg_passengers > 5000 then base_speed * 0.8
                   else if avg_passengers < 1000 then base_speed * 1.1
                   else base_speed);
          time_hours = distance / speed;
          time_minutes = time_hours * 60;
          stop_time = 2
      in time_minutes + stop_time)"

definition get_traffic_factor :: "bus_stop \<Rightarrow> bus_stop \<Rightarrow> real" where
  "get_traffic_factor stop1 stop2 =
     (let avg_passengers =
            (real (daily_passenger_count stop1) + real (daily_passenger_count stop2)) / 2
      in if avg_passengers > 8000 then 1.3
         else if avg_passengers > 5000 then 1.2
         else if avg_passengers > 2000 then 1.1
         else 1.0)"

definition calculate_difficulty_score :: "bus_stop \<Rightarrow> bus_stop \<Rightarrow> real" where
  "calculate_difficulty_score stop1 stop2 =
     (let score0 = (0 :: real);
          distance = haversine_distance (stop_coordinates stop1) (stop_coordinates stop2);
          score1 = (if distance > 10 then score0 + 20
                    else if distance > 5 then score0 + 10
                    else score0);
          score2 = (if \<not> is_accessible stop1 \<or> \<not> is_accessible stop2 then score1 + 15
                    else score1);
          avg_passengers =
            (real (daily_passenger_count stop1) + real (daily_passenger_count stop2)) / 2;
          score3 = (if avg_passengers > 8000 then score2 + 25
                    else if avg_passengers > 5000 then score2 + 15
                    else if avg_passengers < 500 then score2 + 10
                    else score2);
          total_amenities = length (amenities stop1) + length (amenities stop2);
          score4 = (if total_amenities = 0 then score3 + 20
                    else if total_amenities < 3 then score3 + 10
                    else score3)
      in min 100 score4)"

definition calculate_path_matrix :: "bus_stop list \<Rightarrow> PathAlgorithm \<Rightarrow> path_matrix" where
  "calculate_path_matrix stops' algorithm =
     (let n_stops = length stops';
          distance_of = (\<lambda>i j. calculate_distance (stops' ! i) (stops' ! j) algorithm);
          time_of = (\<lambda>i j. estimate_segment_travel_time (stops' ! i) (stops' ! j) (distance_of i j)
                              * get_traffic_factor (stops' ! i) (stops' ! j))
      in \<lparr>stop_ids = map stop_id stops',
          distance_matrix =
            map (\<lambda>i. map (\<lambda>j. if i \<noteq> j then distance_of i j else 0) [0..<n_stops])
              [0..<n_stops],
          time_matrix =
            map (\<lambda>i. map (\<lambda>j. if i \<noteq> j then time_of i j else 0) [0..<n_stops])
              [0..<n_stops],
          segments =
            concat
              (map (\<lambda>i.
                      concat
                        (map (\<lambda>j.
                                if i \<noteq> j then
                                  [\<lparr>origin_stop_id = stop_id (stops' ! i),
                                    destination_stop_id = stop_id (stops' ! j),
                                    distance_km = distance_of i j,
                                    estimated_time_minutes = py_int (time_of i j),
                                    traffic_factor = get_traffic_factor (stops' ! i) (stops' ! j),
                                    difficulty_score =
                                      calculate_difficulty_score (stops' ! i) (stops' ! j)\<rparr>]
                                else [])
                           [0..<n_stops]))
                 [0..<n_stops]),
          algorithm_used = algorithm\<rparr>)"

section \<open>The optimization engine (algorithms/optimization\_engine.py)\<close>

text \<open>
  The engine draws fresh identifiers (\<open>uuid4\<close>) for the stops and the route it
  builds, and writes the day into the description of the route; both are parameters
  here, \<open>uuids\<close> and \<open>today\<close>.  \<open>str_of_nat\<close> is \<open>str(n)\<close> of a non-negative int.
\<close>

fun str_of_nat :: "nat \<Rightarrow> string" where
  "str_of_nat n =
     (if n < 10 then [''0123456789'' ! n]
      else str_of_nat (n div 10) @ [''0123456789'' ! (n mod 10)])"

declare str_of_nat.simps [simp del]

text \<open>Step 1: the stops in the order of the sequencer, looked up by id in \<open>stop_dict\<close>.\<close>

definition reorder_stops :: "path_matrix \<Rightarrow> bus_stop list \<Rightarrow> bus_stop list" where
  "reorder_stops matrix optimized_stops =
     (if length optimized_stops > 2 then
        let ids = map stop_id optimized_stops;
            optimal_order = find_optimal_route_order matrix ids;
            stop_dict = map_of (rev (zip ids optimized_stops))
        in List.map_filter stop_dict optimal_order
      else optimized_stops)"

text \<open>Step 2: one new stop per coverage gap; the loop with its list \<open>new_stops\<close>.\<close>

fun add_gap_stops :: "(nat \<Rightarrow> string) \<Rightarrow> coverage_gap list \<Rightarrow> bus_stop list \<Rightarrow> error + bus_stop list" where
  "add_gap_stops uuids [] new_stops = Inr new_stops"
| "add_gap_stops uuids (gap # gaps) new_stops =
     (case BusStop
             \<lparr>stop_id = uuids (length new_stops),
              stop_name = ''New Stop - Gap Coverage '' @ str_of_nat (length new_stops + 1),
              stop_coordinates =
                \<lparr>latitude = latitude (gap_coordinates gap),
                 longitude = longitude (gap_coordinates gap)\<rparr>,
              address = ''Coverage gap area - Population: '' @ str_of_nat (gap_population gap),
              amenities = [''shelter''],
              daily_passenger_count = min (gap_population gap div 10) 5000,
              is_accessible = True\<rparr> of
        Inl e \<Rightarrow> Inl e
      | Inr new_stop \<Rightarrow> add_gap_stops uuids gaps (new_stops @ [new_stop]))"

definition add_stops_for_coverage_gaps ::
  "(nat \<Rightarrow> string) \<Rightarrow> bus_stop list \<Rightarrow> coverage_gap list \<Rightarrow> error + bus_stop list" where
  "add_stops_for_coverage_gaps uuids current_stops gaps = add_gap_stops uuids gaps []"

text \<open>Step 4: every stop rebuilt accessible, with the five standard amenities.\<close>

definition enhance_amenities :: "string list \<Rightarrow> string list" where
  "enhance_amenities current_amenities =
     fold (\<lambda>amenity enhanced. if amenity \<in> set enhanced then enhanced else enhanced @ [amenity])
       ([''shelter'', ''seating'', ''lighting'']
          @ [''wheelchair_accessible'', ''tactile_paving''])
       current_amenities"

fun improve_accessibility :: "bus_stop list \<Rightarrow> error + bus_stop list" where
  "improve_accessibility [] = Inr []"
| "improve_accessibility (stop # rest) =
     (case BusStop (stop\<lparr>amenities := enhance_amenities (amenities stop),
                         is_accessible := True\<rparr>) of
        Inl e \<Rightarrow> Inl e
      | Inr improved_stop \<Rightarrow>
          (case improve_accessibility rest of
             Inl e \<Rightarrow> Inl e
           | Inr improved_stops \<Rightarrow> Inr (improved_stop # improved_stops)))"

text \<open>
  Steps 1 to 4 of \<open>_generate_optimized_route\<close>, from the stops of the original
  route to the stops of the optimized one.
\<close>

definition optimized_stop_list ::
  "(nat \<Rightarrow> string) \<Rightarrow> route \<Rightarrow> route_analysis_result \<Rightarrow> population_analysis_result option
     \<Rightarrow> path_matrix \<Rightarrow> error + bus_stop list" where
  "optimized_stop_list uuids original_route route_analysis population_analysis matrix =
     (let stops1 = reorder_stops matrix (stops original_route);
          with_new_stops =
            (case population_analysis of
               None \<Rightarrow> Inr stops1
             | Some analysis \<Rightarrow>
                 if coverage_gaps analysis \<noteq> [] then
                   (case add_stops_for_coverage_gaps uuids stops1
                           (take 2 (coverage_gaps analysis)) of
                      Inl e \<Rightarrow> Inl e
                    | Inr new_stops \<Rightarrow> Inr (stops1 @ new_stops))
                 else Inr stops1)
      in case with_new_stops of
           Inl e \<Rightarrow> Inl e
         | Inr stops2 \<Rightarrow>
             let stops3 = (if bottlenecks route_analysis \<noteq> []
                           then remove_bottleneck_stops stops2 (bottlenecks route_analysis)
                           else stops2)
             in improve_accessibility stops3)"

text \<open>Step 5: the travel time, from the time matrix where both stops are in it.\<close>

fun total_segment_time :: "bus_stop list \<Rightarrow> path_matrix \<Rightarrow> error + real" where
  "total_segment_time (s # t # rest) matrix =
     (case (if stop_id s \<in> set (stop_ids matrix) \<and> stop_id t \<in> set (stop_ids matrix)
            then mat_at (time_matrix matrix) (index (stop_ids matrix) (stop_id s))
                   (index (stop_ids matrix) (stop_id t))
            else Inr (haversine_distance (stop_coordinates s) (stop_coordinates t) / 25 * 60 + 2))
      of
        Inl e \<Rightarrow> Inl e
      | Inr segment_time \<Rightarrow>
          (case total_segment_time (t # rest) matrix of
             Inl e \<Rightarrow> Inl e
           | Inr total_time \<Rightarrow> Inr (segment_time + total_time)))"
| "total_segment_time stops' matrix = Inr 0"

definition estimate_optimized_travel_time :: "bus_stop list \<Rightarrow> path_matrix \<Rightarrow> error + int" where
  "estimate_optimized_travel_time stops' matrix =
     (if length stops' < 2 then Inr 10
      else
        (case total_segment_time stops' matrix of
           Inl e \<Rightarrow> Inl e
         | Inr total_time \<Rightarrow> Inr (max 10 (py_int total_time))))"

text \<open>Step 6: the score.\<close>

definition calculate_new_optimization_score :: "real \<Rightarrow> route_analysis_result \<Rightarrow> real" where
  "calculate_new_optimization_score original_score route_analysis =
     (let base_score = route_analysis_get_overall_score route_analysis;
          bonus0 = (0 :: real);
          bonus1 = (if bottlenecks route_analysis \<noteq> []
                    then bonus0 + real (min 10 (length (bottlenecks route_analysis) * 2))
                    else bonus0);
          bonus2 = (if recommendations route_analysis \<noteq> []
                    then bonus1 + real (min 15 (length (recommendations route_analysis) * 3))
                    else bonus1);
          optimization_bonus = (if accessibility_score route_analysis < 80
                                then bonus2 + 10 else bonus2);
          new_score = min 100 (base_score + optimization_bonus)
      in max new_score (original_score + 5))"

definition generate_optimized_route ::
  "(nat \<Rightarrow> string) \<Rightarrow> string \<Rightarrow> route \<Rightarrow> route_analysis_result
     \<Rightarrow> population_analysis_result option \<Rightarrow> path_matrix \<Rightarrow> error + route" where
  "generate_optimized_route uuids today original_route route_analysis population_analysis matrix =
     (case optimized_stop_list uuids original_route route_analysis population_analysis matrix of
        Inl e \<Rightarrow> Inl e
      | Inr optimized_stops \<Rightarrow>
          (case estimate_optimized_travel_time optimized_stops matrix of
             Inl e \<Rightarrow> Inl e
           | Inr new_travel_time \<Rightarrow>
               Route
                 \<lparr>route_id = uuids 2,
                  name = name original_route @ '' (Optimized)'',
                  description =
                    ''Optimized version of '' @ name original_route @ '' - '' @ today,
                  stops = optimized_stops,
                  operator_id = operator_id original_route,
                  is_active = True,
                  optimization_score =
                    calculate_new_optimization_score (optimization_score original_route)
                      route_analysis,
                  estimated_travel_time = new_travel_time\<rparr>))"

definition calculate_optimization_metrics ::
  "route \<Rightarrow> route \<Rightarrow> route_analysis_result \<Rightarrow> error + optimization_metrics" where
  "calculate_optimization_metrics original_route optimized route_analysis =
     (let time_gain =
            (if estimated_travel_time original_route > 0 then
               max 0 (real_of_int (estimated_travel_time original_route
                                     - estimated_travel_time optimized)
                        / real_of_int (estimated_travel_time original_route) * 100)
             else 0);
          distance_gain = (5 :: real);
          original_coverage = sum_list (map daily_passenger_count (stops original_route));
          optimized_coverage = sum_list (map daily_passenger_count (stops optimized));
          coverage_increase =
            (if original_coverage > 0 then
               max 0 (real_of_int (int optimized_coverage - int original_coverage)
                        / real original_coverage * 100)
             else 0);
          base_cost_savings = (time_gain + distance_gain) / 2;
          accessibility_bonus = (if accessibility_score route_analysis > 80 then 5 else 0)
      in OptimizationMetrics
           \<lparr>time_improvement = time_gain,
            distance_reduction = distance_gain,
            passenger_coverage_increase = coverage_increase,
            cost_savings = base_cost_savings + accessibility_bonus\<rparr>)"

text \<open>
  The dataset that stands in when no population data is given.  \<open>GeoBounds\<close> and
  \<open>PopulationDensityData\<close> check the ranges and lengths of their fields (the two
  validators of \<open>GeoBounds\<close> that compare north with south and east with west run
  before the second field of each pair is known, and so check nothing).
\<close>

definition valid_geo_bounds :: "geo_bounds \<Rightarrow> bool" where
  "valid_geo_bounds b \<longleftrightarrow>
     - 90 \<le> north b \<and> north b \<le> 90 \<and> - 90 \<le> south b \<and> south b \<le> 90 \<and>
     - 180 \<le> east b \<and> east b \<le> 180 \<and> - 180 \<le> west b \<and> west b \<le> 180"

definition PopulationDensityData :: "population_density_data \<Rightarrow> error + population_density_data"
  where
  "PopulationDensityData pd =
     (if valid_geo_bounds (bounds pd) \<and> 1 \<le> length (region pd) \<and> length (region pd) \<le> 200
         \<and> 1 \<le> length (data_source pd) \<and> length (data_source pd) \<le> 200
         \<and> list_all (\<lambda>point. valid_coordinates (point_coordinates point)) (density_points pd)
      then Inr pd else Inl ValidationError)"

definition create_default_population_data :: "route \<Rightarrow> error + population_density_data" where
  "create_default_population_data r =
     (let lats = map (\<lambda>s. latitude (stop_coordinates s)) (stops r);
          lons = map (\<lambda>s. longitude (stop_coordinates s)) (stops r);
          default_bounds =
            (if stops r = [] then \<lparr>north = 0.1, south = - 0.1, east = 0.1, west = - 0.1\<rparr>
             else \<lparr>north = py_max lats + 0.01, south = py_min lats - 0.01,
                   east = py_max lons + 0.01, west = py_min lons - 0.01\<rparr>);
          points =
            map (\<lambda>stop.
                   \<lparr>point_coordinates = stop_coordinates stop,
                    population = daily_passenger_count stop * 10,
                    demographic =
                      \<lparr>age_groups = [(''25-64'', 60), (''18-25'', 20), (''65+'', 20)],
                       economic_indicators = [(''income'', 35000)]\<rparr>\<rparr>)
              (stops r)
      in PopulationDensityData
           \<lparr>region = ''Route '' @ name r @ '' Area'',
            bounds = default_bounds,
            density_points = points,
            data_source = ''Estimated from route data''\<rparr>)"

definition optimize_route ::
  "efficiency_model \<Rightarrow> (nat \<Rightarrow> string) \<Rightarrow> string \<Rightarrow> route \<Rightarrow> population_density_data option
     \<Rightarrow> error + optimization_result" where
  "optimize_route model uuids today r given_data =
     (let route_analysis = analyze_route model r given_data;
          population_analysis = map_option analyze_population_data given_data;
          matrix = calculate_path_matrix (stops r) WEIGHTED
      in case generate_optimized_route uuids today r route_analysis population_analysis matrix of
           Inl e \<Rightarrow> Inl e
         | Inr optimized \<Rightarrow>
             (case calculate_optimization_metrics r optimized route_analysis of
                Inl e \<Rightarrow> Inl e
              | Inr m \<Rightarrow>
                  (case (case given_data of
                           Some pd \<Rightarrow> Inr pd
                         | None \<Rightarrow> create_default_population_data r) of
                     Inl e \<Rightarrow> Inl e
                   | Inr pd \<Rightarrow>
                       Inr \<lparr>result_id = uuids 3,
                            original_route_id = route_id r,
                            optimized_route = optimized,
                            metrics = m,
                            population_data = pd\<rparr>)))"

text \<open>
  The three bonuses of the score, as the count of bottlenecks, the count of
  recommendations and the accessibility score give them.
\<close>

definition bottleneck_bonus :: "route_analysis_result \<Rightarrow> real" where
  "bottleneck_bonus ra = real (min 10 (2 * length (bottlenecks ra)))"

definition recommendation_bonus :: "route_analysis_result \<Rightarrow> real" where
  "recommendation_bonus ra = real (min 15 (3 * length (recommendations ra)))"

definition accessibility_bonus_of :: "route_analysis_result \<Rightarrow> real" where
  "accessibility_bonus_of ra = (if accessibility_score ra < 80 then 10 else 0)"

section \<open>Ranking (algorithms/result\_generator.py, \<open>RouteRankingEngine\<close>)\<close>

datatype RankingCriteria =
  TIME_EFFICIENCY | COST_EFFECTIVENESS | PASSENGER_COVERAGE | ACCESSIBILITY
  | ENVIRONMENTAL_IMPACT | OVERALL_SCORE

text \<open>A weight map is a dict from criterion names to floats: an association list.\<close>

type_synonym weight_map = "(string \<times> real) list"

definition ranking_accessibility_score :: "route \<Rightarrow> real" where
  "ranking_accessibility_score r =
     (if stops r = [] then 0
      else
        let accessible_stops = length (filter is_accessible (stops r));
            accessibility_ratio = real accessible_stops / real (length (stops r));
            accessibility_amenities =
              [''wheelchair_accessible'', ''tactile_paving'', ''audio_announcements''];
            amenity_score =
              sum_list
                (map (\<lambda>stop. length (filter (\<lambda>amenity. amenity \<in> set accessibility_amenities)
                                          (amenities stop)))
                   (stops r));
            avg_amenity_score = real amenity_score / real (length (stops r));
            total_score = accessibility_ratio * 70 + min avg_amenity_score 3 * 10
        in min total_score 100)"

definition calculate_environmental_score :: "optimization_result \<Rightarrow> real" where
  "calculate_environmental_score res =
     (let distance_score = distance_reduction (metrics res) * 0.6;
          coverage_part = min (passenger_coverage_increase (metrics res) * 0.3) 20;
          accessibility_part = ranking_accessibility_score (optimized_route res) * 0.1;
          total_score = distance_score + coverage_part + accessibility_part
      in min total_score 100)"

text \<open>The weights are passed on to \<open>_calculate_ranking_score\<close>, which does not read them.\<close>

fun calculate_ranking_score ::
  "optimization_result \<Rightarrow> RankingCriteria \<Rightarrow> weight_map option \<Rightarrow> real" where
  "calculate_ranking_score res TIME_EFFICIENCY weights = time_improvement (metrics res)"
| "calculate_ranking_score res COST_EFFECTIVENESS weights = cost_savings (metrics res)"
| "calculate_ranking_score res PASSENGER_COVERAGE weights =
     passenger_coverage_increase (metrics res)"
| "calculate_ranking_score res ACCESSIBILITY weights =
     ranking_accessibility_score (optimized_route res)"
| "calculate_ranking_score res ENVIRONMENTAL_IMPACT weights = calculate_environmental_score res"
| "calculate_ranking_score res OVERALL_SCORE weights = metrics_get_overall_score (metrics res)"

text \<open>
  \<open>list.sort(key=...)\<close> is stable, also with \<open>reverse=True\<close>, where it orders by
  descending key and keeps equal keys in their order: the stable \<open>sort_key\<close> by the
  negated score.
\<close>

definition rank_optimization_results ::
  "optimization_result list \<Rightarrow> RankingCriteria \<Rightarrow> weight_map option \<Rightarrow> optimization_result list"
  where
  "rank_optimization_results results criteria weights =
     (if results = [] then []
      else
        let scored_results =
              map (\<lambda>res. (res, calculate_ranking_score res criteria weights)) results;
            by_route_id = sort_key (\<lambda>x. original_route_id (fst x)) scored_results;
            by_score = sort_key (\<lambda>x. - snd x) by_route_id
        in map fst by_score)"

text \<open>The scored pairs after the two sorts, before the scores are dropped.\<close>

definition scored_sorted ::
  "optimization_result list \<Rightarrow> RankingCriteria \<Rightarrow> weight_map option
     \<Rightarrow> (optimization_result \<times> real) list" where
  "scored_sorted results criteria weights =
     sort_key (\<lambda>x. - snd x) (sort_key (\<lambda>x. original_route_id (fst x))
       (map (\<lambda>res. (res, calculate_ranking_score res criteria weights)) results))"

text \<open>
  \<open>_calculate_weighted_overall_score\<close>.  The default table is taken only when no map
  is given; the weights are divided by their sum only when the sum is positive; and
  each of the six criteria is added only when its key is in the map.
\<close>

definition default_weights :: weight_map where
  "default_weights =
     [(''time_improvement'', 0.25), (''distance_reduction'', 0.20),
      (''passenger_coverage'', 0.25), (''cost_savings'', 0.15),
      (''accessibility'', 0.10), (''environmental'', 0.05)]"

definition normalize_weights :: "weight_map \<Rightarrow> weight_map" where
  "normalize_weights ws =
     (let total_weight = sum_list (map snd ws)
      in if total_weight > 0 then map (\<lambda>(k, v). (k, v / total_weight)) ws else ws)"

definition weighted_sum :: "optimization_result \<Rightarrow> weight_map \<Rightarrow> real" where
  "weighted_sum res ws =
     (let score0 = (0 :: real);
          score1 = (case map_of ws ''time_improvement'' of
                      Some w \<Rightarrow> score0 + time_improvement (metrics res) * w
                    | None \<Rightarrow> score0);
          score2 = (case map_of ws ''distance_reduction'' of
                      Some w \<Rightarrow> score1 + distance_reduction (metrics res) * w
                    | None \<Rightarrow> score1);
          score3 = (case map_of ws ''passenger_coverage'' of
                      Some w \<Rightarrow> score2 + passenger_coverage_increase (metrics res) * w
                    | None \<Rightarrow> score2);
          score4 = (case map_of ws ''cost_savings'' of
                      Some w \<Rightarrow> score3 + cost_savings (metrics res) * w
                    | None \<Rightarrow> score3);
          score5 = (case map_of ws ''accessibility'' of
                      Some w \<Rightarrow> score4 + ranking_accessibility_score (optimized_route res) * w
                    | None \<Rightarrow> score4);
          score6 = (case map_of ws ''environmental'' of
                      Some w \<Rightarrow> score5 + calculate_environmental_score res * w
                    | None \<Rightarrow> score5)
      in score6)"

definition calculate_weighted_overall_score ::
  "optimization_result \<Rightarrow> weight_map option \<Rightarrow> real" where
  "calculate_weighted_overall_score res weights =
     (let ws = (case weights of None \<Rightarrow> default_weights | Some w \<Rightarrow> w)
      in min (weighted_sum res (normalize_weights ws)) 100)"

text \<open>
  The weighted score as the specification words it: every criterion that the given
  map lacks gets its default weight, the weights are then divided by their sum, and
  the six criteria are weighted with the result.
\<close>

definition fill_missing_weights :: "weight_map \<Rightarrow> weight_map" where
  "fill_missing_weights ws =
     map (\<lambda>(k, d). (k, case map_of ws k of Some v \<Rightarrow> v | None \<Rightarrow> d)) default_weights"

definition specified_weighted_score :: "optimization_result \<Rightarrow> weight_map \<Rightarrow> real" where
  "specified_weighted_score res ws =
     (let filled = fill_missing_weights ws;
          total_weight = sum_list (map snd filled)
      in min (weighted_sum res (map (\<lambda>(k, v). (k, v / total_weight)) filled)) 100)"

text \<open>
  What one entry of a weight map stands for: the value of the criterion it names,
  and nothing for a name that is none of the six.
\<close>

definition criterion_value :: "optimization_result \<Rightarrow> string \<Rightarrow> real" where
  "criterion_value res k =
     (if k = ''time_improvement'' then time_improvement (metrics res)
      else if k = ''distance_reduction'' then distance_reduction (metrics res)
      else if k = ''passenger_coverage'' then passenger_coverage_increase (metrics res)
      else if k = ''cost_savings'' then cost_savings (metrics res)
      else if k = ''accessibility'' then ranking_accessibility_score (optimized_route res)
      else if k = ''environmental'' then calculate_environmental_score res
      else 0)"

text \<open>The two keys of the ranking order: the score, and the id of the original route.\<close>

definition ranking_key ::
  "RankingCriteria \<Rightarrow> weight_map option \<Rightarrow> optimization_result \<Rightarrow> real \<times> string" where
  "ranking_key criteria weights res =
     (calculate_ranking_score res criteria weights, original_route_id res)"

section \<open>Concrete inputs\<close>

text \<open>
  Three stops on a line, \<open>a\<close> to \<open>b\<close> and \<open>b\<close> to \<open>c\<close> one kilometre each and
  \<open>a\<close> to \<open>c\<close> five; and two stops with no positive entry between them.
\<close>

definition example_matrix :: path_matrix where
  "example_matrix =
     \<lparr>stop_ids = [''a'', ''b'', ''c''],
      distance_matrix = [[0, 1, 5], [1, 0, 1], [5, 1, 0]],
      time_matrix = [[0, 3, 9], [3, 0, 3], [9, 3, 0]],
      segments = [],
      algorithm_used = HAVERSINE\<rparr>"

definition island_matrix :: path_matrix where
  "island_matrix =
     \<lparr>stop_ids = [''a'', ''b''],
      distance_matrix = [[0, 0], [0, 0]],
      time_matrix = [[0, 0], [0, 0]],
      segments = [],
      algorithm_used = HAVERSINE\<rparr>"

text \<open>
  A route of two stops at the same place, not active, with the score 50 and 30
  minutes of travel time.
\<close>

definition origin :: coordinates where
  "origin = \<lparr>latitude = 0, longitude = 0\<rparr>"

definition stop_one :: bus_stop where
  "stop_one =
     \<lparr>stop_id = ''s1'', stop_name = ''First'', stop_coordinates = origin,
      address = ''1 Main Road'', amenities = [''shelter''],
      daily_passenger_count = 400, is_accessible = True\<rparr>"

definition stop_two :: bus_stop where
  "stop_two =
     \<lparr>stop_id = ''s2'', stop_name = ''Second'', stop_coordinates = origin,
      address = ''2 Main Road'', amenities = [],
      daily_passenger_count = 600, is_accessible = False\<rparr>"

definition example_route :: route where
  "example_route =
     \<lparr>route_id = ''r1'', name = ''Line 1'', description = ''A line of two stops'',
      stops = [stop_one, stop_two], operator_id = ''op'', is_active = False,
      optimization_score = 50, estimated_travel_time = 30\<rparr>"

text \<open>
  A dataset of one density point with 10,000 people; optimization results over the
  example route that differ in their own id, the id of their original route and
  their time improvement; two results of the same original route with the same
  metrics; and three results of three routes, two of them with the same time
  improvement, in two orders.
\<close>

definition example_point :: density_point where
  "example_point =
     \<lparr>point_coordinates = origin, population = 10000,
      demographic = \<lparr>age_groups = [], economic_indicators = []\<rparr>\<rparr>"

definition example_population :: population_density_data where
  "example_population =
     \<lparr>region = ''Centre'',
      bounds = \<lparr>north = 1, south = - 1, east = 1, west = - 1\<rparr>,
      density_points = [example_point],
      data_source = ''census''\<rparr>"

definition result_with :: "string \<Rightarrow> string \<Rightarrow> real \<Rightarrow> optimization_result" where
  "result_with rid oid t =
     \<lparr>result_id = rid, original_route_id = oid, optimized_route = example_route,
      metrics = \<lparr>time_improvement = t, distance_reduction = 5,
                 passenger_coverage_increase = 0, cost_savings = 10\<rparr>,
      population_data = example_population\<rparr>"

definition twin_a :: optimization_result where
  "twin_a = result_with ''first run'' ''route-0'' 10"

definition twin_b :: optimization_result where
  "twin_b = result_with ''second run'' ''route-0'' 10"

definition tied_results :: "optimization_result list" where
  "tied_results =
     [result_with ''x'' ''route-2'' 10, result_with ''y'' ''route-1'' 30,
      result_with ''z'' ''route-0'' 10]"

definition tied_shuffled :: "optimization_result list" where
  "tied_shuffled =
     [result_with ''z'' ''route-0'' 10, result_with ''x'' ''route-2'' 10,
      result_with ''y'' ''route-1'' 30]"

section \<open>Properties\<close>

subsection \<open>The exact stop sequencer\<close>

lemma perms_of_length_complete:
  "length xs = n \<Longrightarrow> mset p = mset xs \<Longrightarrow> p \<in> set (perms_of_length n xs)"
proof (induction n arbitrary: xs p)
  case 0
  then show ?case by simp
next
  case (Suc n)
  from Suc.prems obtain y p' where p: "p = y # p'"
    by (cases p) auto
  have "y \<in> set xs"
    using Suc.prems(2) p by (metis list.set_intros(1) set_mset_mset)
  then obtain i where i: "i < length xs" "xs ! i = y"
    by (auto simp: in_set_conv_nth)
  let ?rest = "take i xs @ drop (Suc i) xs"
  have xs: "xs = take i xs @ y # drop (Suc i) xs"
    using i id_take_nth_drop [of i xs] by simp
  have "mset xs = mset ?rest + {#y#}"
    by (subst xs) simp
  with Suc.prems(2) p have "mset p' = mset ?rest" by simp
  moreover have "length ?rest = n"
    using Suc.prems(1) i by simp
  ultimately have "p' \<in> set (perms_of_length n ?rest)"
    by (rule Suc.IH[rotated])
  with i p show ?case by auto
qed

lemma perms_of_length_sound:
  "length xs = n \<Longrightarrow> p \<in> set (perms_of_length n xs) \<Longrightarrow> mset p = mset xs"
proof (induction n arbitrary: xs p)
  case 0
  then show ?case by simp
next
  case (Suc n)
  from Suc.prems(2) obtain i p' where i: "i < length xs" and p: "p = xs ! i # p'"
    and p': "p' \<in> set (perms_of_length n (take i xs @ drop (Suc i) xs))"
    by auto
  let ?rest = "take i xs @ drop (Suc i) xs"
  have "length ?rest = n" using Suc.prems(1) i by simp
  then have "mset p' = mset ?rest" using p' by (rule Suc.IH)
  moreover have "xs = take i xs @ xs ! i # drop (Suc i) xs"
    using i by (simp add: id_take_nth_drop)
  then have "mset xs = mset ?rest + {#xs ! i#}"
    by (metis mset.simps(2) mset_append union_mset_add_mset_right add_mset_add_single)
  ultimately show ?case using p by simp
qed

lemma index_less: "x \<in> set xs \<Longrightarrow> index xs x < length xs"
  by (induction xs) (auto simp: index_def)
  
lemma nth_index: "x \<in> set xs \<Longrightarrow> xs ! index xs x = x"
  by (induction xs) (auto simp: index_def)

lemma mat_at_square:
  "square_matrix matrix \<Longrightarrow> i < length (stop_ids matrix) \<Longrightarrow> j < length (stop_ids matrix)
   \<Longrightarrow> mat_at (distance_matrix matrix) i j = Inr (distance_matrix matrix ! i ! j)"
  by (simp add: square_matrix_def mat_at_def list_all_length)

lemma total_distance_defined:
  "\<forall>i j. i < n \<longrightarrow> j < n \<longrightarrow> (\<exists>d. mat_at m i j = Inr d) \<Longrightarrow> \<forall>i\<in>set order. i < n
   \<Longrightarrow> \<exists>d. total_distance m order = Inr d"
proof (induction m order rule: total_distance.induct)
  case (1 m i j rest)
  then obtain d where "mat_at m i j = Inr d" by force
  moreover from 1 obtain t where "total_distance m (j # rest) = Inr t" by force
  ultimately show ?case by simp
qed simp_all

lemma tsp_loop_Some:
  assumes "\<forall>p\<in>set perms. \<exists>d. total_distance m (f # p) = Inr d"
    and "total_distance m bo = Inr b"
  shows "\<exists>d bo'. tsp_loop m f perms (Some b, bo) = Inr (Some d, bo')
           \<and> total_distance m bo' = Inr d \<and> d \<le> b
           \<and> (\<forall>p\<in>set perms. \<exists>d'. total_distance m (f # p) = Inr d' \<and> d \<le> d')
           \<and> (bo' = bo \<or> bo' \<in> (#) f ` set perms)"
  using assms
proof (induction perms arbitrary: b bo)
  case Nil
  then show ?case by simp
next
  case (Cons p ps)
  from Cons.prems(1) obtain t where t: "total_distance m (f # p) = Inr t" by auto
  from Cons.prems(1) have rest: "\<forall>p\<in>set ps. \<exists>d. total_distance m (f # p) = Inr d" by simp
  show ?case
  proof (cases "t < b")
    case True
    from Cons.IH[OF rest t] obtain d bo' where
      r: "tsp_loop m f ps (Some t, f # p) = Inr (Some d, bo')"
         "total_distance m bo' = Inr d" "d \<le> t"
         "\<forall>q\<in>set ps. \<exists>d'. total_distance m (f # q) = Inr d' \<and> d \<le> d'"
         "bo' = f # p \<or> bo' \<in> (#) f ` set ps"
      by blast
    have "tsp_loop m f (p # ps) (Some b, bo) = Inr (Some d, bo')"
      using t True r(1) by simp
    moreover have "d \<le> b" using r(3) True by simp
    moreover have "\<forall>q\<in>set (p # ps). \<exists>d'. total_distance m (f # q) = Inr d' \<and> d \<le> d'"
      using r(3,4) t by auto
    moreover have "bo' = bo \<or> bo' \<in> (#) f ` set (p # ps)"
      using r(5) by auto
    ultimately show ?thesis using r(2) by blast
  next
    case False
    from Cons.IH[OF rest Cons.prems(2)] obtain d bo' where
      r: "tsp_loop m f ps (Some b, bo) = Inr (Some d, bo')"
         "total_distance m bo' = Inr d" "d \<le> b"
         "\<forall>q\<in>set ps. \<exists>d'. total_distance m (f # q) = Inr d' \<and> d \<le> d'"
         "bo' = bo \<or> bo' \<in> (#) f ` set ps"
      by blast
    have "tsp_loop m f (p # ps) (Some b, bo) = Inr (Some d, bo')"
      using t False r(1) by simp
    moreover have "\<forall>q\<in>set (p # ps). \<exists>d'. total_distance m (f # q) = Inr d' \<and> d \<le> d'"
      using r(3,4) t False by auto
    moreover have "bo' = bo \<or> bo' \<in> (#) f ` set (p # ps)"
      using r(5) by auto
    ultimately show ?thesis using r(2,3) by blast
  qed
qed

lemma tsp_loop_None:
  assumes ok: "\<forall>p\<in>set perms. \<exists>d. total_distance m (f # p) = Inr d"
    and ne: "perms \<noteq> []"
  shows "\<exists>d q. tsp_loop m f perms (None, bo) = Inr (Some d, f # q) \<and> q \<in> set perms
           \<and> total_distance m (f # q) = Inr d
           \<and> (\<forall>p\<in>set perms. \<exists>d'. total_distance m (f # p) = Inr d' \<and> d \<le> d')"
proof -
  from ne obtain p ps where perms: "perms = p # ps" by (cases perms) auto
  from ok perms obtain t where t: "total_distance m (f # p) = Inr t" by auto
  from ok perms have rest: "\<forall>p\<in>set ps. \<exists>d. total_distance m (f # p) = Inr d" by simp
  from tsp_loop_Some[OF rest t] obtain d bo' where
      r: "tsp_loop m f ps (Some t, f # p) = Inr (Some d, bo')"
         "total_distance m bo' = Inr d" "d \<le> t"
         "\<forall>q\<in>set ps. \<exists>d'. total_distance m (f # q) = Inr d' \<and> d \<le> d'"
         "bo' = f # p \<or> bo' \<in> (#) f ` set ps"
    by blast
  from r(5) obtain q where q: "bo' = f # q" "q \<in> set perms" using perms by auto
  have "tsp_loop m f perms (None, bo) = Inr (Some d, f # q)"
    using perms t r(1) q by simp
  moreover have "\<forall>p\<in>set perms. \<exists>d'. total_distance m (f # p) = Inr d' \<and> d \<le> d'"
    using r(3,4) t perms by auto
  ultimately show ?thesis using q r(2) by blast
qed

lemma permutations_iff: "p \<in> set (permutations xs) \<longleftrightarrow> mset p = mset xs"
  unfolding permutations_def
  using perms_of_length_complete[of xs "length xs" p] perms_of_length_sound[of xs "length xs" p]
  by auto

lemma route_indices_all:
  "set ids \<subseteq> set (stop_ids matrix) \<Longrightarrow> route_indices matrix ids = map (index (stop_ids matrix)) ids"
  unfolding route_indices_def
  by (metis (mono_tags, lifting) filter_True subsetD)

lemma brute_force_tsp_result:
  assumes sq: "square_matrix matrix"
    and ne: "2 \<le> length ids"
    and sub: "set ids \<subseteq> set (stop_ids matrix)"
  shows "\<exists>d q. brute_force_tsp matrix ids = Inr (hd ids # q)
           \<and> mset q = mset (tl ids)
           \<and> sequence_distance matrix (hd ids # q) = Inr d
           \<and> (\<forall>perm. mset perm = mset (tl ids) \<longrightarrow>
                 (\<exists>d'. sequence_distance matrix (hd ids # perm) = Inr d' \<and> d \<le> d'))"
proof -
  let ?sids = "stop_ids matrix"
  let ?dm = "distance_matrix matrix"
  let ?ix = "index ?sids"
  from ne obtain x xs where ids: "ids = x # xs" by (cases ids) auto
  have indices: "route_indices matrix ids = ?ix x # map ?ix xs"
    using route_indices_all[OF sub] ids by simp
  let ?f = "?ix x"
  let ?rem = "map ?ix xs"
  have lt: "\<forall>y\<in>set ids. ?ix y < length ?sids"
    using sub index_less by fastforce
  have mat: "\<forall>i j. i < length ?sids \<longrightarrow> j < length ?sids \<longrightarrow> (\<exists>d. mat_at ?dm i j = Inr d)"
    using mat_at_square[OF sq] by blast
  have ok: "\<forall>p\<in>set (permutations ?rem). \<exists>d. total_distance ?dm (?f # p) = Inr d"
  proof
    fix p assume "p \<in> set (permutations ?rem)"
    then have "mset p = mset ?rem" by (simp add: permutations_iff)
    then have "set p = set ?rem" by (rule mset_eq_setD)
    then have "\<forall>i\<in>set (?f # p). i < length ?sids"
      using lt ids by auto
    with mat show "\<exists>d. total_distance ?dm (?f # p) = Inr d"
      by (rule total_distance_defined)
  qed
  have "?rem \<in> set (permutations ?rem)" by (simp add: permutations_iff)
  then have nonempty: "permutations ?rem \<noteq> []" by auto
  from tsp_loop_None[OF ok nonempty, of "?f # ?rem"] obtain d q where
    r: "tsp_loop ?dm ?f (permutations ?rem) (None, ?f # ?rem) = Inr (Some d, ?f # q)"
       "q \<in> set (permutations ?rem)"
       "total_distance ?dm (?f # q) = Inr d"
       "\<forall>p\<in>set (permutations ?rem). \<exists>d'. total_distance ?dm (?f # p) = Inr d' \<and> d \<le> d'"
    by blast
  have q: "mset q = mset ?rem" using r(2) by (simp add: permutations_iff)
  let ?q' = "map (\<lambda>idx. ?sids ! idx) q"
  have nth_ix: "\<forall>y\<in>set ids. ?sids ! (?ix y) = y"
    using sub nth_index by fastforce
  have bf: "brute_force_tsp matrix ids = Inr (x # ?q')"
    using indices r(1) ids nth_ix by (simp add: brute_force_tsp_def)
  have idmap: "map (\<lambda>idx. ?sids ! idx) ?rem = xs"
    using nth_ix ids by (simp add: map_idI)
  have "mset ?q' = image_mset (\<lambda>idx. ?sids ! idx) (mset ?rem)"
    using q by (metis mset_map)
  also have "\<dots> = mset (map (\<lambda>idx. ?sids ! idx) ?rem)"
    by (metis mset_map)
  also have "\<dots> = mset xs"
    using idmap by simp
  finally have perm: "mset ?q' = mset xs" .
  have "set q = set ?rem" using q by (rule mset_eq_setD)
  then have "\<forall>i\<in>set q. ?ix (?sids ! i) = i"
    using nth_ix ids by auto
  then have "map ?ix ?q' = q" by (simp add: map_idI)
  then have sd: "sequence_distance matrix (x # ?q') = Inr d"
    using r(3) by (simp add: sequence_distance_def)
  have opt: "\<exists>d'. sequence_distance matrix (x # perm) = Inr d' \<and> d \<le> d'"
    if "mset perm = mset xs" for perm
  proof -
    have "mset (map ?ix perm) = mset ?rem" using that by (metis mset_map)
    then have "map ?ix perm \<in> set (permutations ?rem)" by (simp add: permutations_iff)
    with r(4) show ?thesis by (simp add: sequence_distance_def)
  qed
  show ?thesis using bf perm sd opt ids by auto
qed

text \<open>
  Claim C1.  For a matrix with a square distance array and a list of 3 to 8 stop ids
  that are all in the matrix, the order returned by \<open>find_optimal_route_order\<close>
  starts with the first input stop, continues with a permutation of the other input
  stops, and the sum of the consecutive distance entries along it is at most that
  sum along the first stop followed by any permutation of the other stops.
\<close>

theorem find_optimal_route_order_exact:
  assumes "square_matrix matrix"
    and "3 \<le> length ids" and "length ids \<le> 8"
    and "set ids \<subseteq> set (stop_ids matrix)"
    and "mset perm = mset (tl ids)"
  shows "hd (find_optimal_route_order matrix ids) = hd ids
       \<and> mset (tl (find_optimal_route_order matrix ids)) = mset (tl ids)
       \<and> (\<exists>d d'. sequence_distance matrix (find_optimal_route_order matrix ids) = Inr d
                 \<and> sequence_distance matrix (hd ids # perm) = Inr d' \<and> d \<le> d')"
proof -
  have "2 \<le> length ids" using assms(2) by simp
  from brute_force_tsp_result[OF assms(1) this assms(4)] obtain d q where
    r: "brute_force_tsp matrix ids = Inr (hd ids # q)" "mset q = mset (tl ids)"
       "sequence_distance matrix (hd ids # q) = Inr d"
       "\<forall>perm. mset perm = mset (tl ids) \<longrightarrow>
                 (\<exists>d'. sequence_distance matrix (hd ids # perm) = Inr d' \<and> d \<le> d')"
    by blast
  have "find_optimal_route_order matrix ids = hd ids # q"
    using assms(2,3) r(1) by (simp add: find_optimal_route_order_def)
  then show ?thesis using r(2,3,4) assms(5) by auto
qed

theorem find_optimal_route_order_exact_witness:
  "square_matrix example_matrix
   \<and> 3 \<le> length [''a'', ''c'', ''b''] \<and> length [''a'', ''c'', ''b''] \<le> 8
   \<and> set [''a'', ''c'', ''b''] \<subseteq> set (stop_ids example_matrix)
   \<and> mset [''c'', ''b''] = mset (tl [''a'', ''c'', ''b''])
   \<and> find_optimal_route_order example_matrix [''a'', ''c'', ''b''] = [''a'', ''b'', ''c'']
   \<and> hd (find_optimal_route_order example_matrix [''a'', ''c'', ''b'']) = ''a''
   \<and> (\<exists>d d'. sequence_distance example_matrix
                 (find_optimal_route_order example_matrix [''a'', ''c'', ''b'']) = Inr d
             \<and> sequence_distance example_matrix [''a'', ''c'', ''b''] = Inr d' \<and> d \<le> d')"
proof -
  have h1: "square_matrix example_matrix"
    by (simp add: square_matrix_def example_matrix_def)
  have h2: "3 \<le> length [''a'', ''c'', ''b'']" by simp
  have h3: "length [''a'', ''c'', ''b''] \<le> 8" by simp
  have h4: "set [''a'', ''c'', ''b''] \<subseteq> set (stop_ids example_matrix)"
    by (simp add: example_matrix_def)
  have h5: "mset [''c'', ''b''] = mset (tl [''a'', ''c'', ''b''])" by simp
  have ev: "find_optimal_route_order example_matrix [''a'', ''c'', ''b''] = [''a'', ''b'', ''c'']"
    by (simp add: find_optimal_route_order_def brute_force_tsp_def example_matrix_def
        route_indices_def index_def permutations_def mat_at_def Let_def)
  from find_optimal_route_order_exact [OF h1 h2 h3 h4 h5] h1 h2 h3 h4 h5 ev
  show ?thesis by simp
qed

subsection \<open>Lookup misses\<close>

lemma route_indices_short:
  assumes "s \<in> set ids" "s \<notin> set (stop_ids matrix)"
  shows "length (route_indices matrix ids) \<noteq> length ids"
proof -
  have "length (filter (\<lambda>s. s \<in> set (stop_ids matrix)) ids) < length ids"
    using assms by (intro length_filter_less) auto
  then show ?thesis by (simp add: route_indices_def)
qed

lemma find_shortest_path_example:
  "find_shortest_path example_matrix ''a'' ''c'' = Some (Some [''a'', ''b'', ''c''])"
  by (simp add: find_shortest_path_def example_matrix_def run_dijkstra_def index_def mat_at_def
      upt_rec numeral_3_eq_3 reconstruct_path.simps)

lemma island_unreachable: "distance_remains_infinite island_matrix ''a'' ''b''"
  by (simp add: distance_remains_infinite_def island_matrix_def run_dijkstra_def index_def
      mat_at_def upt_rec numeral_2_eq_2)

text \<open>
  Claim C7.  When some requested stop id is not in the matrix,
  \<open>find_optimal_route_order\<close> returns the input order unchanged; when the origin or
  the destination is not in the matrix, or the distance of the destination is still
  infinite after the Dijkstra loop, \<open>find_shortest_path\<close> returns \<open>None\<close>.  Neither
  raises.
\<close>

theorem lookup_miss_fallback:
  "((\<exists>s\<in>set ids. s \<notin> set (stop_ids matrix)) \<longrightarrow> find_optimal_route_order matrix ids = ids)
   \<and> (origin_id \<notin> set (stop_ids matrix) \<or> destination_id \<notin> set (stop_ids matrix)
        \<or> distance_remains_infinite matrix origin_id destination_id
      \<longrightarrow> find_shortest_path matrix origin_id destination_id = Some None)"
proof (intro conjI impI)
  assume "\<exists>s\<in>set ids. s \<notin> set (stop_ids matrix)"
  then obtain s where s: "s \<in> set ids" "s \<notin> set (stop_ids matrix)" by blast
  then have ne: "ids \<noteq> []" by auto
  have "brute_force_tsp matrix ids = Inr ids"
    using route_indices_short[OF s] ne by (simp add: brute_force_tsp_def)
  moreover have "nearest_neighbor_tsp matrix ids = Inr ids"
    using route_indices_short[OF s] ne by (simp add: nearest_neighbor_tsp_def)
  ultimately show "find_optimal_route_order matrix ids = ids"
    by (simp add: find_optimal_route_order_def)
next
  assume "origin_id \<notin> set (stop_ids matrix) \<or> destination_id \<notin> set (stop_ids matrix)
        \<or> distance_remains_infinite matrix origin_id destination_id"
  then show "find_shortest_path matrix origin_id destination_id = Some None"
    by (auto simp: find_shortest_path_def distance_remains_infinite_def Let_def split: sum.splits)
qed

theorem lookup_miss_fallback_witness:
  "(\<exists>s\<in>set [''a'', ''x'', ''b'']. s \<notin> set (stop_ids example_matrix))
   \<and> find_optimal_route_order example_matrix [''a'', ''x'', ''b''] = [''a'', ''x'', ''b'']
   \<and> ''z'' \<notin> set (stop_ids island_matrix)
   \<and> find_shortest_path island_matrix ''z'' ''b'' = Some None
   \<and> find_shortest_path island_matrix ''a'' ''z'' = Some None
   \<and> distance_remains_infinite island_matrix ''a'' ''b''
   \<and> find_shortest_path island_matrix ''a'' ''b'' = Some None"
proof -
  have h1: "\<exists>s\<in>set [''a'', ''x'', ''b'']. s \<notin> set (stop_ids example_matrix)"
    by (simp add: example_matrix_def)
  have h2: "''z'' \<notin> set (stop_ids island_matrix)"
    by (simp add: island_matrix_def)
  note h3 = island_unreachable
  from lookup_miss_fallback [of "[''a'', ''x'', ''b'']" example_matrix]
       lookup_miss_fallback [of _ island_matrix "''z''" "''b''"]
       lookup_miss_fallback [of _ island_matrix "''a''" "''z''"]
       lookup_miss_fallback [of _ island_matrix "''a''" "''b''"]
       h1 h2 h3
  show ?thesis by blast
qed

subsection \<open>Ranking\<close>

lemma sorted_lex_from_groups:
  fixes f :: "'a \<Rightarrow> 'b::linorder" and g :: "'a \<Rightarrow> 'c::linorder"
  assumes "sorted (map f zs)"
    and "\<And>k. sorted (map g (filter (\<lambda>z. f z = k) zs))"
  shows "sorted (map (\<lambda>z. (f z, g z)) zs)"
  using assms
proof (induction zs)
  case Nil
  then show ?case by simp
next
  case (Cons z zs)
  have tail: "sorted (map (\<lambda>z. (f z, g z)) zs)"
  proof (rule Cons.IH)
    show "sorted (map f zs)" using Cons.prems(1) by simp
    show "sorted (map g (filter (\<lambda>z. f z = k) zs))" for k
      using Cons.prems(2)[of k] by (auto split: if_splits)
  qed
  have "(f z, g z) \<le> (f y, g y)" if y: "y \<in> set zs" for y
  proof (cases "f z = f y")
    case True
    from Cons.prems(2)[of "f z"] have "sorted (g z # map g (filter (\<lambda>u. f u = f z) zs))"
      by simp
    moreover have "y \<in> set (filter (\<lambda>u. f u = f z) zs)" using y True by simp
    ultimately have "g z \<le> g y" by auto
    then show ?thesis using True by (simp add: less_eq_prod_def)
  next
    case False
    have "f z \<le> f y" using Cons.prems(1) y by auto
    then have "f z < f y" using False by simp
    then show ?thesis by (simp add: less_eq_prod_def)
  qed
  then show ?case using tail by auto
qed

lemma double_sort_lex:
  fixes f :: "'a \<Rightarrow> 'b::linorder" and g :: "'a \<Rightarrow> 'c::linorder"
  shows "sorted (map (\<lambda>z. (f z, g z)) (sort_key f (sort_key g xs)))"
proof (rule sorted_lex_from_groups)
  show "sorted (map f (sort_key f (sort_key g xs)))" by (rule sorted_sort_key)
  show "sorted (map g (filter (\<lambda>z. f z = k) (sort_key f (sort_key g xs))))" for k
  proof -
    have "filter (\<lambda>z. f z = k) (sort_key f (sort_key g xs)) = filter (\<lambda>z. f z = k) (sort_key g xs)"
      by (rule sort_key_stable)
    moreover have "sorted (map g (filter (\<lambda>z. f z = k) (sort_key g xs)))"
      by (rule sorted_filter) (rule sorted_sort_key)
    ultimately show ?thesis by simp
  qed
qed

lemma sorted_same_mset_keys:
  fixes K :: "'a \<Rightarrow> 'b::linorder"
  assumes "sorted (map K as)" "sorted (map K bs)" "mset as = mset bs"
  shows "map K as = map K bs"
proof -
  have "mset (map K as) = mset (map K bs)" using assms(3) by simp
  from properties_for_sort[OF this assms(1)] have "sort (map K bs) = map K as" .
  moreover from properties_for_sort[OF refl assms(2)] have "sort (map K bs) = map K bs" .
  ultimately show ?thesis by simp
qed

lemma rank_eq: "rank_optimization_results results c w = map fst (scored_sorted results c w)"
  by (simp add: rank_optimization_results_def scored_sorted_def Let_def)

lemma scored_sorted_snd:
  "x \<in> set (scored_sorted results c w) \<Longrightarrow> snd x = calculate_ranking_score (fst x) c w"
  by (auto simp: scored_sorted_def)

lemma scored_sorted_map:
  "scored_sorted results c w =
     map (\<lambda>res. (res, calculate_ranking_score res c w)) (rank_optimization_results results c w)"
  unfolding rank_eq
  by (rule nth_equalityI) (auto simp: scored_sorted_snd[symmetric] intro: prod_eqI dest: nth_mem)

lemma mset_rank: "mset (rank_optimization_results results c w) = mset results"
proof -
  have "mset (scored_sorted results c w)
        = mset (map (\<lambda>res. (res, calculate_ranking_score res c w)) results)"
    by (simp add: scored_sorted_def)
  then have "mset (map fst (scored_sorted results c w))
        = mset (map fst (map (\<lambda>res. (res, calculate_ranking_score res c w)) results))"
    by (metis mset_map)
  then show ?thesis by (simp add: rank_eq comp_def)
qed

lemma rank_sorted_lex:
  "sorted (map (\<lambda>res. (- calculate_ranking_score res c w, original_route_id res))
            (rank_optimization_results results c w))"
proof -
  have "sorted (map (\<lambda>x. (- snd x, original_route_id (fst x))) (scored_sorted results c w))"
    unfolding scored_sorted_def by (rule double_sort_lex)
  then show ?thesis
    by (subst (asm) scored_sorted_map) (simp add: comp_def)
qed

lemma rank_stable:
  "filter (\<lambda>res. ranking_key c w res = k) (rank_optimization_results results c w)
     = filter (\<lambda>res. ranking_key c w res = k) results"
proof -
  obtain s i where k: "k = (s, i)" by (cases k)
  let ?scored = "map (\<lambda>res. (res, calculate_ranking_score res c w)) results"
  let ?f = "\<lambda>x :: optimization_result \<times> real. - snd x"
  let ?g = "\<lambda>x :: optimization_result \<times> real. original_route_id (fst x)"
  let ?S = "scored_sorted results c w"
  have "filter (\<lambda>res. ranking_key c w res = k) (map fst ?S)
        = map fst (filter (\<lambda>x. ranking_key c w (fst x) = k) ?S)"
    by (simp add: filter_map comp_def)
  also have "filter (\<lambda>x. ranking_key c w (fst x) = k) ?S
        = filter (\<lambda>x. ?g x = i) (filter (\<lambda>x. ?f x = - s) ?S)"
    unfolding filter_filter
    by (rule filter_cong) (auto simp: ranking_key_def k dest: scored_sorted_snd)
  also have "filter (\<lambda>x. ?f x = - s) ?S = filter (\<lambda>x. ?f x = - s) (sort_key ?g ?scored)"
    unfolding scored_sorted_def by (rule sort_key_stable)
  also have "filter (\<lambda>x. ?g x = i) (filter (\<lambda>x. ?f x = - s) (sort_key ?g ?scored))
        = filter (\<lambda>x. ?f x = - s) (filter (\<lambda>x. ?g x = i) (sort_key ?g ?scored))"
    by (simp add: conj_commute)
  also have "filter (\<lambda>x. ?g x = i) (sort_key ?g ?scored) = filter (\<lambda>x. ?g x = i) ?scored"
    by (rule sort_key_stable)
  also have "map fst (filter (\<lambda>x. ?f x = - s) (filter (\<lambda>x. ?g x = i) ?scored))
        = filter (\<lambda>res. ranking_key c w res = k) results"
    by (induction results) (auto simp: ranking_key_def k)
  finally show ?thesis by (simp add: rank_eq)
qed

text \<open>
  Claim C3, amended.  For every list of results, criterion and weights, the ranking
  is a reordering of its input, by descending score and, among equal scores, by
  ascending id of the original route.  For a shuffled copy of the list the ranking
  shows the same sequence of scores and original route ids; the ranked lists
  themselves are equal when no two different results of the list have both the same
  score and the same original route id; and the results that have both the same
  score and the same original route id keep the order they had in the input.
\<close>

theorem rank_optimization_results_order:
  assumes "mset shuffled = mset results"
  shows "sorted_wrt (\<lambda>a b. calculate_ranking_score a c w > calculate_ranking_score b c w
                       \<or> (calculate_ranking_score a c w = calculate_ranking_score b c w
                           \<and> original_route_id a \<le> original_route_id b))
           (rank_optimization_results results c w)
       \<and> mset (rank_optimization_results results c w) = mset results
       \<and> map (ranking_key c w) (rank_optimization_results shuffled c w)
           = map (ranking_key c w) (rank_optimization_results results c w)
       \<and> (inj_on (ranking_key c w) (set results) \<longrightarrow>
            rank_optimization_results shuffled c w = rank_optimization_results results c w)
       \<and> filter (\<lambda>res. ranking_key c w res = k) (rank_optimization_results results c w)
           = filter (\<lambda>res. ranking_key c w res = k) results"
proof -
  let ?K = "\<lambda>res. (- calculate_ranking_score res c w, original_route_id res)"
  let ?a = "rank_optimization_results shuffled c w"
  let ?b = "rank_optimization_results results c w"
  have "sorted_wrt (\<lambda>x y. ?K x \<le> ?K y) ?b"
    using rank_sorted_lex[of c w results] by (simp add: sorted_map)
  then have p1: "sorted_wrt (\<lambda>a b. calculate_ranking_score a c w > calculate_ranking_score b c w
                       \<or> (calculate_ranking_score a c w = calculate_ranking_score b c w
                           \<and> original_route_id a \<le> original_route_id b)) ?b"
    by (rule sorted_wrt_mono_rel[rotated]) (auto simp: less_eq_prod_def)
  have ms: "mset ?a = mset ?b" using assms by (simp add: mset_rank)
  have "map ?K ?a = map ?K ?b"
    using rank_sorted_lex rank_sorted_lex ms by (rule sorted_same_mset_keys)
  then have "map (\<lambda>(s, i). (- s, i)) (map ?K ?a) = map (\<lambda>(s, i). (- s, i :: string)) (map ?K ?b)"
    by simp
  then have p3: "map (ranking_key c w) ?a = map (ranking_key c w) ?b"
    by (simp add: comp_def ranking_key_def [abs_def])
  have p4: "?a = ?b" if inj: "inj_on (ranking_key c w) (set results)"
  proof -
    have "set ?a = set results" "set ?b = set results"
      using mset_rank assms by (metis mset_eq_setD)+
    then have "inj_on (ranking_key c w) (set ?a \<union> set ?b)" using inj by simp
    then show ?thesis using p3 by (simp add: inj_on_map_eq_map)
  qed
  show ?thesis using p1 p3 p4 mset_rank rank_stable by blast
qed

text \<open>
  Two results of the same original route with equal scores come out in the order
  they went in: the ranking of the list and of its reversal differ.
\<close>

theorem rank_shuffle_counterexample:
  "mset [twin_b, twin_a] = mset [twin_a, twin_b]
   \<and> rank_optimization_results [twin_a, twin_b] OVERALL_SCORE None = [twin_a, twin_b]
   \<and> rank_optimization_results [twin_b, twin_a] OVERALL_SCORE None = [twin_b, twin_a]
   \<and> rank_optimization_results [twin_b, twin_a] OVERALL_SCORE None
       \<noteq> rank_optimization_results [twin_a, twin_b] OVERALL_SCORE None"
  by (simp add: rank_optimization_results_def twin_a_def twin_b_def result_with_def
      metrics_get_overall_score_def Let_def)

lemma tied_ranked:
  "rank_optimization_results tied_results TIME_EFFICIENCY None =
     [result_with ''y'' ''route-1'' 30, result_with ''z'' ''route-0'' 10,
      result_with ''x'' ''route-2'' 10]"
  by (simp add: rank_optimization_results_def tied_results_def result_with_def Let_def)

lemma twins_kept:
  "filter (\<lambda>res. ranking_key OVERALL_SCORE None res = ranking_key OVERALL_SCORE None twin_a)
     [twin_b, twin_a] = [twin_b, twin_a]"
  by (simp add: ranking_key_def twin_a_def twin_b_def result_with_def)

theorem rank_optimization_results_order_witness:
  "mset tied_shuffled = mset tied_results
   \<and> inj_on (ranking_key TIME_EFFICIENCY None) (set tied_results)
   \<and> rank_optimization_results tied_shuffled TIME_EFFICIENCY None
       = rank_optimization_results tied_results TIME_EFFICIENCY None
   \<and> rank_optimization_results tied_results TIME_EFFICIENCY None =
       [result_with ''y'' ''route-1'' 30, result_with ''z'' ''route-0'' 10,
        result_with ''x'' ''route-2'' 10]
   \<and> filter (\<lambda>res. ranking_key OVERALL_SCORE None res = ranking_key OVERALL_SCORE None twin_a)
        (rank_optimization_results [twin_b, twin_a] OVERALL_SCORE None) = [twin_b, twin_a]"
proof -
  have h1: "mset tied_shuffled = mset tied_results"
    by (simp add: tied_shuffled_def tied_results_def)
  have h2: "inj_on (ranking_key TIME_EFFICIENCY None) (set tied_results)"
    by (simp add: tied_results_def ranking_key_def result_with_def)
  have h3: "mset [twin_b, twin_a] = mset [twin_b, twin_a]" by simp
  from rank_optimization_results_order
         [OF h1, where c = TIME_EFFICIENCY and w = None]
       rank_optimization_results_order
         [OF h3, where c = OVERALL_SCORE and w = None
            and k = "ranking_key OVERALL_SCORE None twin_a"]
       h1 h2 tied_ranked twins_kept
  show ?thesis by simp
qed

lemma single_key_sum:
  "distinct (map fst ws) \<Longrightarrow>
   (\<Sum>(k, v)\<leftarrow>ws. if k = key then c * v else 0)
     = (case map_of ws key of Some v \<Rightarrow> c * v | None \<Rightarrow> (0::real))"
proof (induction ws)
  case Nil
  then show ?case by simp
next
  case (Cons p ws)
  obtain k v where p: "p = (k, v)" by (cases p)
  show ?case
  proof (cases "k = key")
    case True
    then have "map_of ws key = None" using Cons.prems p
      by (simp add: map_of_eq_None_iff)
    then show ?thesis using Cons p True by simp
  next
    case False
    then show ?thesis using Cons p by simp
  qed
qed

lemma sum_list_add_case:
  "(\<Sum>(k, v)\<leftarrow>ws. f k v + g k v) = (\<Sum>(k, v)\<leftarrow>ws. f k v) + (\<Sum>(k, v)\<leftarrow>ws. (g k v :: real))"
  by (induction ws) auto

lemma criterion_value_split:
  "criterion_value res k * v =
     (if k = ''time_improvement'' then time_improvement (metrics res) * v else 0)
   + ((if k = ''distance_reduction'' then distance_reduction (metrics res) * v else 0)
   + ((if k = ''passenger_coverage'' then passenger_coverage_increase (metrics res) * v else 0)
   + ((if k = ''cost_savings'' then cost_savings (metrics res) * v else 0)
   + ((if k = ''accessibility'' then ranking_accessibility_score (optimized_route res) * v else 0)
   + (if k = ''environmental'' then calculate_environmental_score res * v else 0)))))"
  by (simp add: criterion_value_def)

lemma weighted_sum_as_sum:
  assumes "distinct (map fst ws)"
  shows "weighted_sum res ws = (\<Sum>(k, v)\<leftarrow>ws. criterion_value res k * v)"
proof -
  note s = single_key_sum [OF assms]
  have "(\<Sum>(k, v)\<leftarrow>ws. criterion_value res k * v) =
      (case map_of ws ''time_improvement'' of Some v \<Rightarrow> time_improvement (metrics res) * v | None \<Rightarrow> 0)
    + ((case map_of ws ''distance_reduction'' of Some v \<Rightarrow> distance_reduction (metrics res) * v | None \<Rightarrow> 0)
    + ((case map_of ws ''passenger_coverage'' of Some v \<Rightarrow> passenger_coverage_increase (metrics res) * v | None \<Rightarrow> 0)
    + ((case map_of ws ''cost_savings'' of Some v \<Rightarrow> cost_savings (metrics res) * v | None \<Rightarrow> 0)
    + ((case map_of ws ''accessibility'' of Some v \<Rightarrow> ranking_accessibility_score (optimized_route res) * v | None \<Rightarrow> 0)
    + (case map_of ws ''environmental'' of Some v \<Rightarrow> calculate_environmental_score res * v | None \<Rightarrow> 0)))))"
    unfolding criterion_value_split sum_list_add_case s ..
  also have "\<dots> = weighted_sum res ws"
    by (simp add: weighted_sum_def split: option.splits)
  finally show ?thesis by simp
qed

lemma normalize_weights_positive:
  assumes "0 < sum_list (map snd ws)"
  shows "normalize_weights ws = map (\<lambda>(k, v). (k, v / sum_list (map snd ws))) ws"
    and "sum_list (map snd (normalize_weights ws)) = 1"
    and "map fst (normalize_weights ws) = map fst ws"
proof -
  show n: "normalize_weights ws = map (\<lambda>(k, v). (k, v / sum_list (map snd ws))) ws"
    using assms by (simp add: normalize_weights_def)
  have "sum_list (map snd (map (\<lambda>(k, v). (k, v / t)) ws)) = sum_list (map snd ws) / t" for t :: real
    by (induction ws) (auto simp: add_divide_distrib)
  then show "sum_list (map snd (normalize_weights ws)) = 1"
    using assms n by simp
  show "map fst (normalize_weights ws) = map fst ws"
    unfolding n by (induction ws) auto
qed

text \<open>
  Claim C9, amended.  Without a weight map the weighted score uses the default
  table, whose weights sum to 1.  A given map is used as it is: when the sum of its
  weights is positive they are divided by it, so that they sum to 1, and otherwise
  they are left unchanged; the score is the sum over the entries of the map of the
  named criterion's value times the entry's weight so prepared, at most 100, and a
  criterion that is not in the map adds nothing.
\<close>

theorem weighted_overall_score_as_coded:
  "calculate_weighted_overall_score res None =
     min (time_improvement (metrics res) * 0.25 + distance_reduction (metrics res) * 0.20
            + passenger_coverage_increase (metrics res) * 0.25 + cost_savings (metrics res) * 0.15
            + ranking_accessibility_score (optimized_route res) * 0.10
            + calculate_environmental_score res * 0.05) 100
   \<and> (distinct (map fst ws) \<longrightarrow>
        (0 < sum_list (map snd ws) \<longrightarrow>
           sum_list (map snd (normalize_weights ws)) = 1
           \<and> calculate_weighted_overall_score res (Some ws) =
               min (\<Sum>(k, v)\<leftarrow>ws. criterion_value res k * (v / sum_list (map snd ws))) 100)
        \<and> (sum_list (map snd ws) \<le> 0 \<longrightarrow>
             normalize_weights ws = ws
             \<and> calculate_weighted_overall_score res (Some ws) =
                 min (\<Sum>(k, v)\<leftarrow>ws. criterion_value res k * v) 100))"
proof (intro conjI impI)
  show "calculate_weighted_overall_score res None =
     min (time_improvement (metrics res) * 0.25 + distance_reduction (metrics res) * 0.20
            + passenger_coverage_increase (metrics res) * 0.25 + cost_savings (metrics res) * 0.15
            + ranking_accessibility_score (optimized_route res) * 0.10
            + calculate_environmental_score res * 0.05) 100"
    by (simp add: calculate_weighted_overall_score_def default_weights_def normalize_weights_def
        weighted_sum_def)
next
  assume d: "distinct (map fst ws)" and pos: "0 < sum_list (map snd ws)"
  show "sum_list (map snd (normalize_weights ws)) = 1"
    by (rule normalize_weights_positive(2) [OF pos])
next
  assume d: "distinct (map fst ws)" and pos: "0 < sum_list (map snd ws)"
  have d': "distinct (map fst (normalize_weights ws))"
    using d normalize_weights_positive(3) [OF pos] by simp
  have "weighted_sum res (normalize_weights ws)
        = (\<Sum>(k, v)\<leftarrow>normalize_weights ws. criterion_value res k * v)"
    by (rule weighted_sum_as_sum [OF d'])
  also have "\<dots> = (\<Sum>(k, v)\<leftarrow>ws. criterion_value res k * (v / sum_list (map snd ws)))"
    unfolding normalize_weights_positive(1) [OF pos]
    by (simp add: comp_def case_prod_unfold)
  finally show "calculate_weighted_overall_score res (Some ws) =
            min (\<Sum>(k, v)\<leftarrow>ws. criterion_value res k * (v / sum_list (map snd ws))) 100"
    by (simp add: calculate_weighted_overall_score_def)
next
  assume d: "distinct (map fst ws)" and np: "sum_list (map snd ws) \<le> 0"
  show "normalize_weights ws = ws"
    using np by (simp add: normalize_weights_def)
next
  assume d: "distinct (map fst ws)" and np: "sum_list (map snd ws) \<le> 0"
  have same: "normalize_weights ws = ws"
    using np by (simp add: normalize_weights_def)
  show "calculate_weighted_overall_score res (Some ws) =
            min (\<Sum>(k, v)\<leftarrow>ws. criterion_value res k * v) 100"
    using weighted_sum_as_sum [OF d, of res]
    by (simp add: calculate_weighted_overall_score_def same)
qed

lemma example_accessibility: "ranking_accessibility_score example_route = 35"
  by (simp add: ranking_accessibility_score_def example_route_def stop_one_def stop_two_def)

lemma example_environmental:
  "calculate_environmental_score (result_with rid oid t) = 6.5"
  by (simp add: calculate_environmental_score_def result_with_def example_accessibility)

text \<open>
  With only the time weight given, the code scores the time improvement alone (10),
  where filling in the five defaults and renormalizing would give 653/70; and a map
  whose weights sum to 0 is not renormalized.
\<close>

theorem weighted_overall_score_counterexample:
  "calculate_weighted_overall_score (result_with ''x'' ''route-0'' 10)
      (Some [(''time_improvement'', 1)]) = 10
   \<and> specified_weighted_score (result_with ''x'' ''route-0'' 10) [(''time_improvement'', 1)]
       = 653 / 70
   \<and> calculate_weighted_overall_score (result_with ''x'' ''route-0'' 10)
        (Some [(''time_improvement'', 1)])
       \<noteq> specified_weighted_score (result_with ''x'' ''route-0'' 10)
           [(''time_improvement'', 1)]
   \<and> sum_list (map snd (normalize_weights [(''time_improvement'', 0)])) \<noteq> 1"
proof -
  have "calculate_weighted_overall_score (result_with ''x'' ''route-0'' 10)
      (Some [(''time_improvement'', 1)]) = 10
   \<and> specified_weighted_score (result_with ''x'' ''route-0'' 10) [(''time_improvement'', 1)]
       = 653 / 70
   \<and> sum_list (map snd (normalize_weights [(''time_improvement'', 0)])) = 0"
  proof (intro conjI)
  show "calculate_weighted_overall_score (result_with ''x'' ''route-0'' 10)
      (Some [(''time_improvement'', 1)]) = 10"
    by (simp add: calculate_weighted_overall_score_def normalize_weights_def weighted_sum_def
        result_with_def)
  have acc: "ranking_accessibility_score (optimized_route (result_with ''x'' ''route-0'' 10)) = 35"
    by (simp add: result_with_def example_accessibility)
  show "specified_weighted_score (result_with ''x'' ''route-0'' 10) [(''time_improvement'', 1)]
       = 653 / 70"
    by (simp add: specified_weighted_score_def fill_missing_weights_def default_weights_def
        weighted_sum_def example_environmental acc)
       (simp add: result_with_def)
  show "sum_list (map snd (normalize_weights [(''time_improvement'', 0)])) = 0"
    by (simp add: normalize_weights_def)
qed
  then show ?thesis by simp
qed

theorem weighted_overall_score_as_coded_witness:
  "distinct (map fst [(''time_improvement'', 3 :: real), (''speed'', 1)])
   \<and> 0 < sum_list (map snd [(''time_improvement'', 3 :: real), (''speed'', 1)])
   \<and> sum_list (map snd (normalize_weights [(''time_improvement'', 3), (''speed'', 1)])) = 1
   \<and> calculate_weighted_overall_score (result_with ''x'' ''route-0'' 10)
        (Some [(''time_improvement'', 3), (''speed'', 1)]) = 7.5
   \<and> distinct (map fst [(''time_improvement'', 2 :: real), (''speed'', - 2)])
   \<and> sum_list (map snd [(''time_improvement'', 2 :: real), (''speed'', - 2)]) \<le> 0
   \<and> normalize_weights [(''time_improvement'', 2), (''speed'', - 2)]
       = [(''time_improvement'', 2), (''speed'', - 2)]
   \<and> calculate_weighted_overall_score (result_with ''x'' ''route-0'' 10)
        (Some [(''time_improvement'', 2), (''speed'', - 2)]) = 20"
proof -
  have h: "distinct (map fst [(''time_improvement'', 3 :: real), (''speed'', 1)])
      \<and> 0 < sum_list (map snd [(''time_improvement'', 3 :: real), (''speed'', 1)])"
    by simp
  have g: "distinct (map fst [(''time_improvement'', 2 :: real), (''speed'', - 2)])
      \<and> sum_list (map snd [(''time_improvement'', 2 :: real), (''speed'', - 2)]) \<le> 0"
    by simp
  have v: "criterion_value (result_with ''x'' ''route-0'' 10) ''time_improvement'' = 10"
      "criterion_value (result_with ''x'' ''route-0'' 10) ''speed'' = 0"
    by (simp_all add: criterion_value_def result_with_def)
  from weighted_overall_score_as_coded
         [of "result_with ''x'' ''route-0'' 10" "[(''time_improvement'', 3), (''speed'', 1)]"]
       weighted_overall_score_as_coded
         [of "result_with ''x'' ''route-0'' 10" "[(''time_improvement'', 2), (''speed'', - 2)]"]
       h g
  show ?thesis by (simp add: v)
qed

subsection \<open>Coverage gaps\<close>

lemma coordinates_rebuild:
  "\<lparr>latitude = latitude c, longitude = longitude c\<rparr> = (c :: coordinates)"
  by simp

lemma haversine_self: "haversine_distance c c = 0"
  by (simp add: haversine_distance_def Let_def)

lemma haversine_one_degree:
  "haversine_distance \<lparr>latitude = 0, longitude = 0\<rparr> \<lparr>latitude = 1, longitude = 0\<rparr>
     = 6371 * pi / 180"
proof -
  have s: "0 \<le> sin (pi / 360)"
    by (rule sin_ge_zero) (simp_all add: pi_ge_zero)
  have "arcsin (sin (pi / 360)) = pi / 360"
    by (rule arcsin_sin) (use pi_gt_zero in simp_all)
  then show ?thesis
    using s by (simp add: haversine_distance_def radians_def Let_def)
qed

lemma one_degree_far:
  "haversine_distance \<lparr>latitude = 0, longitude = 0\<rparr> \<lparr>latitude = 1, longitude = 0\<rparr> > 1"
  unfolding haversine_one_degree using pi_ge_two by simp

lemma scan_stops_far_Some:
  "\<forall>s\<in>set stops'. haversine_distance c s > radius
   \<Longrightarrow> \<exists>d. scan_stops c stops' radius (Some m) = (False, Some d)"
  by (induction stops' arbitrary: m) (simp_all add: Let_def)

lemma scan_stops_far:
  assumes "stops' \<noteq> []" "\<forall>s\<in>set stops'. haversine_distance c s > radius"
  shows "\<exists>d. scan_stops c stops' radius acc = (False, Some d)"
proof -
  from assms(1) obtain s rest where st: "stops' = s # rest" by (cases stops') auto
  then have far: "haversine_distance c s > radius"
    and rest: "\<forall>s\<in>set rest. haversine_distance c s > radius"
    using assms(2) by simp_all
  obtain m where "scan_stops c stops' radius acc = scan_stops c rest radius (Some m)"
    using st far by (cases acc) (simp_all add: Let_def)
  then show ?thesis using scan_stops_far_Some [OF rest] by simp
qed

text \<open>
  Claim C5, amended.  For a dataset of exactly one density point, with 10,000
  people, the population analysis takes that point itself as its one candidate stop
  and so reports no coverage gap; the gap step, run on that dataset with a
  non-empty list of candidate stops all farther than 1 km from the point, returns
  exactly one entry, for that point, with the severity \<open>high\<close>.
\<close>

theorem single_point_coverage:
  assumes "density_points pd = [p]" and "population p = 10000"
  shows "optimal_stop_locations (analyze_population_data pd) = [point_coordinates p]
       \<and> coverage_gaps (analyze_population_data pd) = []
       \<and> (candidates \<noteq> [] \<and> (\<forall>s\<in>set candidates. haversine_distance (point_coordinates p) s > 1)
            \<longrightarrow> (\<exists>d. identify_coverage_gaps pd candidates 1 =
                   [\<lparr>gap_coordinates = point_coordinates p, gap_population = 10000,
                     distance_to_nearest_stop = Some d, gap_severity = ''high''\<rparr>]))"
proof (intro conjI impI)
  have loc: "find_optimal_stop_locations pd 20 = [point_coordinates p]"
    using assms by (simp add: find_optimal_stop_locations_def tuple_coordinates_def)
  then show "optimal_stop_locations (analyze_population_data pd) = [point_coordinates p]"
    by (simp add: analyze_population_data_def Let_def)
  show "coverage_gaps (analyze_population_data pd) = []"
    using assms loc
    by (simp add: analyze_population_data_def identify_coverage_gaps_def haversine_self Let_def)
next
  assume c: "candidates \<noteq> [] \<and> (\<forall>s\<in>set candidates. haversine_distance (point_coordinates p) s > 1)"
  then obtain d where "scan_stops (point_coordinates p) candidates 1 None = (False, Some d)"
    using scan_stops_far[of candidates 1 "point_coordinates p" None] by auto
  then have "identify_coverage_gaps pd candidates 1 =
                   [\<lparr>gap_coordinates = point_coordinates p, gap_population = 10000,
                     distance_to_nearest_stop = Some d, gap_severity = ''high''\<rparr>]"
    using assms c by (simp add: identify_coverage_gaps_def)
  then show "\<exists>d. identify_coverage_gaps pd candidates 1 =
                   [\<lparr>gap_coordinates = point_coordinates p, gap_population = 10000,
                     distance_to_nearest_stop = Some d, gap_severity = ''high''\<rparr>]" ..
qed

text \<open>
  The dataset of the claim, its point inside the bounds: the analysis returns no
  coverage gap, not one.
\<close>

theorem single_point_no_gap_counterexample:
  "length (density_points example_population) = 1
   \<and> population (hd (density_points example_population)) = 10000
   \<and> south (bounds example_population)
       \<le> latitude (point_coordinates (hd (density_points example_population)))
   \<and> latitude (point_coordinates (hd (density_points example_population)))
       \<le> north (bounds example_population)
   \<and> west (bounds example_population)
       \<le> longitude (point_coordinates (hd (density_points example_population)))
   \<and> longitude (point_coordinates (hd (density_points example_population)))
       \<le> east (bounds example_population)
   \<and> coverage_gaps (analyze_population_data example_population) = []
   \<and> length (coverage_gaps (analyze_population_data example_population)) \<noteq> 1"
  by (simp add: example_population_def example_point_def origin_def analyze_population_data_def
      find_optimal_stop_locations_def identify_coverage_gaps_def tuple_coordinates_def
      haversine_self Let_def)

theorem single_point_coverage_witness:
  "density_points example_population = [example_point]
   \<and> population example_point = 10000
   \<and> [\<lparr>latitude = 1, longitude = 0\<rparr>] \<noteq> []
   \<and> haversine_distance (point_coordinates example_point) \<lparr>latitude = 1, longitude = 0\<rparr> > 1
   \<and> coverage_gaps (analyze_population_data example_population) = []
   \<and> (\<exists>d. identify_coverage_gaps example_population [\<lparr>latitude = 1, longitude = 0\<rparr>] 1 =
           [\<lparr>gap_coordinates = point_coordinates example_point, gap_population = 10000,
             distance_to_nearest_stop = Some d, gap_severity = ''high''\<rparr>])"
proof -
  have h1: "density_points example_population = [example_point]"
    by (simp add: example_population_def)
  have h2: "population example_point = 10000"
    by (simp add: example_point_def)
  have h3: "haversine_distance (point_coordinates example_point) \<lparr>latitude = 1, longitude = 0\<rparr> > 1"
    using one_degree_far by (simp add: example_point_def origin_def)
  from single_point_coverage [OF h1 h2, of "[\<lparr>latitude = 1, longitude = 0\<rparr>]"] h1 h2 h3
  show ?thesis by simp
qed

subsection \<open>Score bounds\<close>

lemma efficiency_bounds:
  "0 \<le> calculate_efficiency_score model r \<and> calculate_efficiency_score model r \<le> 100"
  by (simp add: calculate_efficiency_score_def Let_def split: option.splits)

lemma basic_coverage_bounds:
  "0 \<le> basic_coverage_score r \<and> basic_coverage_score r \<le> 100"
  by (simp add: basic_coverage_score_def Let_def le_max_iff_disj)

lemma covered_population_le:
  "covered_population r points \<le> sum_list (map population points)"
  unfolding covered_population_def
  by (induction points) auto

lemma coverage_bounds:
  "0 \<le> calculate_coverage_score r pd \<and> calculate_coverage_score r pd \<le> 100"
  by (simp add: calculate_coverage_score_def Let_def basic_coverage_bounds split: option.splits)

lemma accessibility_bounds:
  "0 \<le> calculate_accessibility_score r \<and> calculate_accessibility_score r \<le> 100"
proof (cases "stops r = []")
  case True
  then show ?thesis by (simp add: calculate_accessibility_score_def)
next
  case False
  define n where "n = real (length (stops r))"
  define ratio where "ratio = real (length (filter is_accessible (stops r))) / n"
  define am where
    "am = min 20 (real (sum_list (map (\<lambda>stop. length (amenities stop)) (stops r))) / n)"
  have n: "0 < n" using False by (simp add: n_def)
  have "real (length (filter is_accessible (stops r))) \<le> n" by (simp add: n_def)
  then have r1: "ratio \<le> 1" using n by (simp add: ratio_def divide_le_eq_1)
  have r0: "0 \<le> ratio" using n by (simp add: ratio_def)
  have a0: "0 \<le> am" using n by (simp add: am_def)
  have a1: "am \<le> 20" by (simp add: am_def)
  have eq: "calculate_accessibility_score r = ratio * 80 + am"
    using False by (simp add: calculate_accessibility_score_def Let_def ratio_def am_def n_def)
  have "0 \<le> ratio * 80 + am" using r0 a0 by simp
  moreover have "ratio * 80 + am \<le> 100" using r1 a1 by linarith
  ultimately show ?thesis using eq by simp
qed

lemma density_bonus_nonneg: "0 \<le> calculate_density_bonus r pd"
proof -
  have "0 \<le> sum_list (map f xs)" if "\<And>x. 0 \<le> f x" for f :: "bus_stop \<Rightarrow> real" and xs
    using that by (induction xs) auto
  then show ?thesis
    by (simp add: calculate_density_bonus_def Let_def)
qed

lemma demand_bounds:
  "0 \<le> calculate_passenger_demand_score r pd \<and> calculate_passenger_demand_score r pd \<le> 100"
  using density_bonus_nonneg
  by (auto simp: calculate_passenger_demand_score_def Let_def split: option.splits
      intro: add_nonneg_nonneg)

text \<open>
  Claim C6.  For every valid route, with or without population data and whatever the
  learned estimator does, the efficiency, coverage, accessibility and demand scores
  of \<open>analyze_route\<close> lie between 0 and 100, and so does the overall score, their
  combination with the weights 0.25, 0.25, 0.20 and 0.30.
\<close>

theorem analyze_route_score_bounds:
  assumes "valid_route r"
  shows "0 \<le> efficiency_score (analyze_route model r pd)
       \<and> efficiency_score (analyze_route model r pd) \<le> 100
       \<and> 0 \<le> coverage_score (analyze_route model r pd)
       \<and> coverage_score (analyze_route model r pd) \<le> 100
       \<and> 0 \<le> accessibility_score (analyze_route model r pd)
       \<and> accessibility_score (analyze_route model r pd) \<le> 100
       \<and> 0 \<le> passenger_demand_score (analyze_route model r pd)
       \<and> passenger_demand_score (analyze_route model r pd) \<le> 100
       \<and> 0 \<le> route_analysis_get_overall_score (analyze_route model r pd)
       \<and> route_analysis_get_overall_score (analyze_route model r pd) \<le> 100"
proof -
  note e = efficiency_bounds [of model r]
  note c = coverage_bounds [of r pd]
  note a = accessibility_bounds [of r]
  note d = demand_bounds [of r pd]
  have "0 \<le> route_analysis_get_overall_score (analyze_route model r pd)"
    using e c a d by (simp add: route_analysis_get_overall_score_def analyze_route_def Let_def)
  moreover have "route_analysis_get_overall_score (analyze_route model r pd) \<le> 100"
    using e c a d by (simp add: route_analysis_get_overall_score_def analyze_route_def Let_def)
  ultimately show ?thesis
    using e c a d by (simp add: analyze_route_def Let_def)
qed

lemma example_route_valid: "valid_route example_route"
  by (simp add: valid_route_def example_route_def valid_bus_stop_def valid_coordinates_def
      stop_one_def stop_two_def origin_def)

theorem analyze_route_score_bounds_witness:
  "valid_route example_route
   \<and> 0 \<le> efficiency_score (analyze_route None example_route None)
   \<and> efficiency_score (analyze_route None example_route None) \<le> 100
   \<and> 0 \<le> coverage_score (analyze_route None example_route None)
   \<and> coverage_score (analyze_route None example_route None) \<le> 100
   \<and> 0 \<le> accessibility_score (analyze_route None example_route None)
   \<and> accessibility_score (analyze_route None example_route None) \<le> 100
   \<and> 0 \<le> passenger_demand_score (analyze_route None example_route None)
   \<and> passenger_demand_score (analyze_route None example_route None) \<le> 100
   \<and> 0 \<le> route_analysis_get_overall_score (analyze_route None example_route None)
   \<and> route_analysis_get_overall_score (analyze_route None example_route None) \<le> 100"
  using analyze_route_score_bounds [OF example_route_valid, of None None] example_route_valid
  by simp

subsection \<open>Bottleneck removal\<close>

lemma collect_stops_to_remove_acc:
  "collect_stops_to_remove bs acc = acc"
  by (induction bs arbitrary: acc) simp_all

lemma remove_bottleneck_stops_keeps:
  "remove_bottleneck_stops stops' bns = stops'"
  by (simp add: remove_bottleneck_stops_def collect_stops_to_remove_acc
      case_prod_unfold)

text \<open>
  Claim C8.  For every stop list and every list of bottleneck records, the
  bottleneck-removal step returns its input stop list unchanged: no branch of the
  loop ever marks a stop for removal.
\<close>

theorem remove_bottleneck_stops_identity:
  "remove_bottleneck_stops stops' bns = stops'"
  by (rule remove_bottleneck_stops_keeps)

theorem remove_bottleneck_stops_identity_witness:
  "remove_bottleneck_stops [stop_one, stop_two, stop_one, stop_two]
     [\<lparr>btype = ''high_demand_stop'', severity = ''medium'', stop_index = Some 1\<rparr>]
   = [stop_one, stop_two, stop_one, stop_two]"
  by (rule remove_bottleneck_stops_identity)

subsection \<open>The optimization engine\<close>

lemma tsp_loop_order:
  "tsp_loop m f perms (bd, bo) = Inr (bd', bo') \<Longrightarrow> bo' = bo \<or> bo' \<in> (#) f ` set perms"
proof (induction perms arbitrary: bd bo)
  case Nil
  then show ?case by simp
next
  case (Cons p ps)
  then show ?case
    by (auto simp: Let_def split: sum.splits if_splits)
qed

lemma route_indices_full:
  assumes "length (route_indices matrix ids) = length ids"
  shows "set ids \<subseteq> set (stop_ids matrix)"
  using assms route_indices_short by blast

lemma brute_force_tsp_shape:
  assumes "brute_force_tsp matrix ids = Inr order"
  shows "length order = length ids \<and> set order \<subseteq> set ids"
proof (cases "ids = [] \<or> length (route_indices matrix ids) \<noteq> length ids")
  case True
  then show ?thesis using assms by (auto simp: brute_force_tsp_def Let_def split: if_splits)
next
  case False
  then have ne: "ids \<noteq> []" and len: "length (route_indices matrix ids) = length ids" by simp_all
  have sub: "set ids \<subseteq> set (stop_ids matrix)" by (rule route_indices_full [OF len])
  let ?sids = "stop_ids matrix"
  have ri: "route_indices matrix ids = map (index ?sids) ids" by (rule route_indices_all [OF sub])
  from ne obtain x xs where ids: "ids = x # xs" by (cases ids) auto
  from assms ne len ri ids obtain bd bo where
    loop: "tsp_loop (distance_matrix matrix) (index ?sids x) (permutations (map (index ?sids) xs))
             (None, map (index ?sids) ids) = Inr (bd, bo)"
    and order: "order = map (\<lambda>idx. ?sids ! idx) bo"
    by (auto simp: brute_force_tsp_def Let_def split: sum.splits)
  from tsp_loop_order [OF loop]
  have "mset bo = mset (map (index ?sids) ids)"
    using ids by (auto simp: permutations_iff)
  then have l: "length bo = length ids" and s: "set bo = index ?sids ` set ids"
    by (metis length_map mset_eq_length, metis mset_eq_setD set_map)
  have "set order \<subseteq> set ids"
    using order s sub nth_index by fastforce
  then show ?thesis using order l by simp
qed

lemma nn_loop_shape:
  "nn_loop m current unvisited route' = Inr r \<Longrightarrow>
     set r \<subseteq> set route' \<union> set unvisited
     \<and> length route' + (if unvisited = [] then 0 else 1) \<le> length r"
proof (induction m current unvisited route' arbitrary: r rule: nn_loop.induct)
  case (1 m current unvisited route')
  show ?case
  proof (cases "unvisited = []")
    case True
    then show ?thesis using "1.prems" by (simp add: nn_loop.simps)
  next
    case False
    from "1.prems" False obtain nearest where
      n: "min_by_distance m current unvisited = Inr nearest"
      and rec: "nn_loop m nearest (removeAll nearest unvisited) (route' @ [nearest]) = Inr r"
      by (subst (asm) nn_loop.simps) (auto split: sum.splits)
    have mem: "min_by_distance m current xs = Inr z \<Longrightarrow> z \<in> set xs" for xs z
      by (induction m current xs arbitrary: z rule: min_by_distance.induct)
         (auto split: sum.splits if_splits)
    from "1.IH" [OF False n rec] mem [OF n] False show ?thesis
      by (auto split: if_splits)
  qed
qed

lemma nearest_neighbor_tsp_shape:
  assumes "nearest_neighbor_tsp matrix ids = Inr order" "2 \<le> length ids"
  shows "2 \<le> length order \<and> set order \<subseteq> set ids"
proof (cases "length (route_indices matrix ids) \<noteq> length ids")
  case True
  then show ?thesis using assms by (auto simp: nearest_neighbor_tsp_def Let_def split: if_splits)
next
  case False
  then have len: "length (route_indices matrix ids) = length ids" by simp
  have sub: "set ids \<subseteq> set (stop_ids matrix)" by (rule route_indices_full [OF len])
  let ?sids = "stop_ids matrix"
  have ri: "route_indices matrix ids = map (index ?sids) ids" by (rule route_indices_all [OF sub])
  from assms(2) obtain x y ys where ids: "ids = x # y # ys"
    by (cases ids; cases "tl ids") auto
  define unv where "unv = sort (remdups (map (index ?sids) (y # ys)))"
  have unv_set: "set unv = index ?sids ` set (y # ys)"
    unfolding unv_def by (simp only: set_sort set_remdups set_map)
  then have ne: "unv \<noteq> []" by auto
  from assms(1) len ri ids obtain r where
    loop: "nn_loop (distance_matrix matrix) (index ?sids x) unv [index ?sids x] = Inr r"
    and order: "order = map (\<lambda>idx. ?sids ! idx) r"
    by (auto simp: nearest_neighbor_tsp_def Let_def unv_def split: sum.splits)
  from nn_loop_shape [OF loop] ne
  have "set r \<subseteq> set [index ?sids x] \<union> set unv" and "2 \<le> length r"
    by simp_all
  then have "set r \<subseteq> index ?sids ` set ids" and "2 \<le> length r"
    unfolding unv_set ids by auto
  then show ?thesis using order sub nth_index by fastforce
qed

lemma find_optimal_route_order_shape:
  assumes "2 \<le> length ids"
  shows "2 \<le> length (find_optimal_route_order matrix ids)
       \<and> set (find_optimal_route_order matrix ids) \<subseteq> set ids"
  using assms brute_force_tsp_shape [of matrix ids] nearest_neighbor_tsp_shape [of matrix ids]
  by (auto simp: find_optimal_route_order_def split: sum.splits)

lemma length_map_filter_total:
  "\<forall>x\<in>set xs. f x \<noteq> None \<Longrightarrow> length (List.map_filter f xs) = length xs"
  by (induction xs) (auto simp: List.map_filter_simps)

lemma reorder_stops_length:
  assumes "2 \<le> length ss"
  shows "2 \<le> length (reorder_stops matrix ss)"
proof (cases "length ss > 2")
  case False
  then show ?thesis using assms by (simp add: reorder_stops_def)
next
  case True
  let ?ids = "map stop_id ss"
  let ?order = "find_optimal_route_order matrix ?ids"
  let ?dict = "map_of (rev (zip ?ids ss))"
  have shape: "2 \<le> length ?order \<and> set ?order \<subseteq> set ?ids"
    by (rule find_optimal_route_order_shape) (use assms in simp)
  have "map fst (zip ?ids ss) = ?ids" by (simp add: map_fst_zip)
  then have "fst ` set (zip ?ids ss) = set ?ids" by (metis set_map)
  then have "dom ?dict = set ?ids"
    by (simp add: dom_map_of_conv_image_fst)
  then have "\<forall>x\<in>set ?order. ?dict x \<noteq> None" using shape by blast
  then have "length (List.map_filter ?dict ?order) = length ?order"
    by (rule length_map_filter_total)
  then show ?thesis using True shape by (simp add: reorder_stops_def Let_def)
qed

lemma improve_accessibility_length:
  "improve_accessibility ss = Inr ss' \<Longrightarrow> length ss' = length ss"
  by (induction ss arbitrary: ss') (auto split: sum.splits)

lemma optimized_stop_list_length:
  assumes "2 \<le> length (stops r)"
    and "optimized_stop_list uuids r ra pa matrix = Inr ss"
  shows "2 \<le> length ss"
proof -
  note l1 = reorder_stops_length [OF assms(1), of matrix]
  from assms(2) obtain stops3 where
    imp: "improve_accessibility stops3 = Inr ss"
    and ge: "length (reorder_stops matrix (stops r)) \<le> length stops3"
    by (auto simp: optimized_stop_list_def Let_def remove_bottleneck_stops_keeps
        split: sum.splits option.splits if_splits)
  from improve_accessibility_length [OF imp] ge l1 show ?thesis by simp
qed

end
